theory Spec2Isabelle
  imports Main "HOL-Library.Sublist"
begin

section \<open>Python values and their text forms\<close>

text \<open>
  The values a tool hands back, as far as \<^verbatim>\<open>wrapped_func\<close> in \<^verbatim>\<open>src/server.py\<close>
  tells them apart: scalars, lists and dicts. A dict is an association list in
  insertion order, which is the order \<^verbatim>\<open>dict.items()\<close> iterates in. Strings are
  lists of characters, one \<open>char\<close> per code point (code points up to 255), so
  \<open>length\<close> is Python's \<^verbatim>\<open>len\<close>. Floats are left out.
\<close>

datatype pyval =
    PNone
  | PBool bool
  | PInt int
  | PStr string
  | PList "pyval list"
  | PDict "(string \<times> pyval) list"

text \<open>
  What the original tool function returns: a value, or a tuple (the MCP adapters
  return \<^verbatim>\<open>(data, metadata)\<close>). After the wrapper's conversion step the result is
  a value, or still the empty tuple.
\<close>

datatype tool_result = Plain pyval | Tuple "pyval list"

datatype result = Val pyval | EmptyTuple

subsection \<open>\<^verbatim>\<open>str\<close> of an integer\<close>

definition digit_char :: "nat \<Rightarrow> char" where
  "digit_char d = char_of (48 + d)"

function nat_str :: "nat \<Rightarrow> string" where
  "nat_str n = (if n < 10 then [digit_char n] else nat_str (n div 10) @ [digit_char (n mod 10)])"
  by pat_completeness auto
termination
  by (relation "measure id") auto

declare nat_str.simps [simp del]

definition int_str :: "int \<Rightarrow> string" where
  "int_str i = (if i < 0 then CHR ''-'' # nat_str (nat (- i)) else nat_str (nat i))"

subsection \<open>\<^verbatim>\<open>json.dumps\<close> with its default settings\<close>

text \<open>
  \<^verbatim>\<open>ensure_ascii=True\<close>, item separator \<^verbatim>\<open>", "\<close>, key separator \<^verbatim>\<open>": "\<close>.
  Every character outside the printable ASCII range, the double quote and the
  backslash are escaped.
\<close>

definition hex_char :: "nat \<Rightarrow> char" where
  "hex_char d = (if d < 10 then char_of (48 + d) else char_of (87 + d))"

definition json_escape_char :: "char \<Rightarrow> string" where
  "json_escape_char c =
     (if c = CHR 0x22 then [CHR 0x5C, CHR 0x22]
      else if c = CHR 0x5C then [CHR 0x5C, CHR 0x5C]
      else if c = CHR 0x0A then [CHR 0x5C, CHR ''n'']
      else if c = CHR 0x0D then [CHR 0x5C, CHR ''r'']
      else if c = CHR 0x09 then [CHR 0x5C, CHR ''t'']
      else if c = CHR 0x08 then [CHR 0x5C, CHR ''b'']
      else if c = CHR 0x0C then [CHR 0x5C, CHR ''f'']
      else if 32 \<le> (of_char c :: nat) \<and> (of_char c :: nat) \<le> 126 then [c]
      else [CHR 0x5C, CHR ''u'', CHR ''0'', CHR ''0'',
            hex_char ((of_char c :: nat) div 16), hex_char ((of_char c :: nat) mod 16)])"

definition json_string :: "string \<Rightarrow> string" where
  "json_string s = [CHR 0x22] @ concat (map json_escape_char s) @ [CHR 0x22]"

fun join :: "string \<Rightarrow> string list \<Rightarrow> string" where
  "join sep [] = []"
| "join sep [x] = x"
| "join sep (x # y # ys) = x @ sep @ join sep (y # ys)"

fun json_dumps :: "pyval \<Rightarrow> string" where
  "json_dumps PNone = ''null''"
| "json_dumps (PBool b) = (if b then ''true'' else ''false'')"
| "json_dumps (PInt i) = int_str i"
| "json_dumps (PStr s) = json_string s"
| "json_dumps (PList xs) = ''['' @ join '', '' (map json_dumps xs) @ '']''"
| "json_dumps (PDict kvs) =
     ''{'' @ join '', '' (map (\<lambda>kv. json_string (fst kv) @ '': '' @ json_dumps (snd kv)) kvs) @ ''}''"

subsection \<open>The text whose length is measured\<close>

text \<open>
  \<^verbatim>\<open>result_str = json.dumps(result) if isinstance(result, (dict, list)) else str(result)\<close>
\<close>

fun result_str :: "result \<Rightarrow> string" where
  "result_str (Val (PDict kvs)) = json_dumps (PDict kvs)"
| "result_str (Val (PList xs)) = json_dumps (PList xs)"
| "result_str (Val PNone) = ''None''"
| "result_str (Val (PBool b)) = (if b then ''True'' else ''False'')"
| "result_str (Val (PInt i)) = int_str i"
| "result_str (Val (PStr s)) = s"
| "result_str EmptyTuple = ''()''"

section \<open>The wrapper around MCP tools (\<^verbatim>\<open>wrap_mcp_tool\<close>)\<close>

subsection \<open>Conversion of the tool's result\<close>

text \<open>
  A tuple is replaced by its first component, an empty tuple stays. A string is
  replaced by what \<^verbatim>\<open>json.loads\<close> makes of it when that succeeds. The parser is
  a parameter \<open>loads\<close>, with \<open>None\<close> for the exception it raises on text that
  is not JSON.
\<close>

fun unwrap_tuple :: "tool_result \<Rightarrow> result" where
  "unwrap_tuple (Plain v) = Val v"
| "unwrap_tuple (Tuple []) = EmptyTuple"
| "unwrap_tuple (Tuple (x # xs)) = Val x"

fun parse_json :: "(string \<Rightarrow> pyval option) \<Rightarrow> result \<Rightarrow> result" where
  "parse_json loads (Val (PStr s)) = (case loads s of Some v \<Rightarrow> Val v | None \<Rightarrow> Val (PStr s))"
| "parse_json loads r = r"

definition convert :: "(string \<Rightarrow> pyval option) \<Rightarrow> tool_result \<Rightarrow> result" where
  "convert loads raw = parse_json loads (unwrap_tuple raw)"

text \<open>The Python object a result stands for, to compare it with what the tool returned.\<close>

fun py_value :: "result \<Rightarrow> tool_result" where
  "py_value (Val v) = Plain v"
| "py_value EmptyTuple = Tuple []"

subsection \<open>The truncated preview\<close>

definition truncate_value :: "pyval \<Rightarrow> pyval" where
  "truncate_value val =
     (case val of
        PStr s \<Rightarrow> if length s > 200 then PStr (take 200 s @ ''...'') else val
      | _ \<Rightarrow> val)"

text \<open>\<^verbatim>\<open>d[key] = v\<close>: an existing key keeps its place, a new one goes last.\<close>

fun dict_set :: "(string \<times> pyval) list \<Rightarrow> string \<Rightarrow> pyval \<Rightarrow> (string \<times> pyval) list" where
  "dict_set [] k v = [(k, v)]"
| "dict_set ((k', v') # kvs) k v =
     (if k' = k then (k, v) # kvs else (k', v') # dict_set kvs k v)"

text \<open>The loop \<^verbatim>\<open>for key, value in result.items()\<close>, with the dict built so far.\<close>

fun truncate_items :: "(string \<times> pyval) list \<Rightarrow> (string \<times> pyval) list \<Rightarrow> (string \<times> pyval) list" where
  "truncate_items truncated_result [] = truncated_result"
| "truncate_items truncated_result ((k, v) # items) =
     truncate_items (dict_set truncated_result k (truncate_value v)) items"

definition truncate_dict :: "(string \<times> pyval) list \<Rightarrow> (string \<times> pyval) list" where
  "truncate_dict items = truncate_items [] items"

definition truncate_item :: "pyval \<Rightarrow> pyval" where
  "truncate_item item =
     (case item of PDict items \<Rightarrow> PDict (truncate_dict items) | _ \<Rightarrow> item)"

definition more_items :: "nat \<Rightarrow> string" where
  "more_items n = ''... and '' @ nat_str n @ '' more items''"

definition truncate_list :: "pyval list \<Rightarrow> pyval list" where
  "truncate_list xs =
     (let truncated_list = map truncate_item (take 5 xs)
      in if length xs > 5 then truncated_list @ [PStr (more_items (length xs - 5))]
         else truncated_list)"

fun preview :: "result \<Rightarrow> result" where
  "preview (Val (PDict items)) = Val (PDict (truncate_dict items))"
| "preview (Val (PList xs)) = Val (PList (truncate_list xs))"
| "preview r =
     Val (PStr (if length (result_str r) > 2000 then take 2000 (result_str r) @ ''...''
                else result_str r))"

subsection \<open>Saving the full result\<close>

text \<open>
  The file system is an environment that says which of the four operations
  succeed: \<^verbatim>\<open>os.makedirs\<close>, \<^verbatim>\<open>open\<close>, the write inside \<^verbatim>\<open>try\<close>
  (\<^verbatim>\<open>json.dump\<close> for a dict or list, \<^verbatim>\<open>f.write\<close> otherwise) and the
  \<^verbatim>\<open>f.write\<close> of the \<^verbatim>\<open>except\<close> branch. Only the third is caught.
\<close>

record spool_env =
  makedirs_ok :: bool
  open_ok :: bool
  write_ok :: bool
  rewrite_ok :: bool

datatype error = ToolError string | MakedirsFailed | OpenFailed | WriteFailed

datatype content =
    Indented pyval
  | Text string
  | TextAfterFailure string
  | Unfinished

fun first_write :: "result \<Rightarrow> content" where
  "first_write (Val (PDict items)) = Indented (PDict items)"
| "first_write (Val (PList xs)) = Indented (PList xs)"
| "first_write r = Text (result_str r)"

definition spool_filename :: "string \<Rightarrow> string \<Rightarrow> string" where
  "spool_filename tool_name timestamp = ''mcp_output/'' @ tool_name @ ''_'' @ timestamp @ ''.json''"

definition spool ::
  "spool_env \<Rightarrow> string \<Rightarrow> string \<Rightarrow> result \<Rightarrow> (error + unit) \<times> (string \<times> content) option" where
  "spool env tool_name timestamp r =
     (if \<not> makedirs_ok env then (Inl MakedirsFailed, None)
      else let filename = spool_filename tool_name timestamp
           in if \<not> open_ok env then (Inl OpenFailed, None)
              else if write_ok env then (Inr (), Some (filename, first_write r))
              else if rewrite_ok env then (Inr (), Some (filename, TextAfterFailure (result_str r)))
              else (Inl WriteFailed, Some (filename, Unfinished)))"

subsection \<open>\<^verbatim>\<open>wrapped_func\<close>\<close>

text \<open>
  The outcome is what the coroutine returns or raises, together with the file
  it left behind, if any.
\<close>

definition arbitrate ::
  "(string \<Rightarrow> pyval option) \<Rightarrow> spool_env \<Rightarrow> string \<Rightarrow> string \<Rightarrow> tool_result
     \<Rightarrow> (error + result) \<times> (string \<times> content) option" where
  "arbitrate loads env tool_name timestamp raw =
     (let r = convert loads raw
      in if length (result_str r) > 10000
         then (case spool env tool_name timestamp r of
                 (Inl e, file) \<Rightarrow> (Inl e, file)
               | (Inr u, file) \<Rightarrow> (Inr (preview r), file))
         else (Inr r, None))"

definition wrapped_func ::
  "('a \<Rightarrow> error + tool_result) \<Rightarrow> (string \<Rightarrow> pyval option) \<Rightarrow> spool_env \<Rightarrow> string \<Rightarrow> string
     \<Rightarrow> 'a \<Rightarrow> (error + result) \<times> (string \<times> content) option" where
  "wrapped_func original_func loads env tool_name timestamp args =
     (case original_func args of
        Inl e \<Rightarrow> (Inl e, None)
      | Inr raw \<Rightarrow> arbitrate loads env tool_name timestamp raw)"

section \<open>Browser tools forced into the requested mode (\<^verbatim>\<open>initialize_agent\<close>)\<close>

text \<open>
  A tool as the composer sees it. \<open>coroutine\<close> is the callable chosen by
  \<^verbatim>\<open>tool.coroutine if hasattr(tool, 'coroutine') else tool.func\<close>; it takes the
  positional and the keyword arguments.
\<close>

record ('s, 'r) tool =
  name :: string
  description :: string
  coroutine :: "pyval list \<Rightarrow> (string \<rightharpoonup> pyval) \<Rightarrow> 'r"
  args_schema :: 's

definition browser_tool_names :: "string list" where
  "browser_tool_names =
     [''browser_research'', ''browser_research_multiple'', ''browser_interactive_research'']"

definition browser_mode_note :: "bool \<Rightarrow> string" where
  "browser_mode_note headless =
     '' (Browser mode: '' @ (if headless then ''headless/invisible'' else ''visible/slow'') @ '')''"

definition create_wrapped_browser_tool ::
  "(pyval list \<Rightarrow> (string \<rightharpoonup> pyval) \<Rightarrow> 'r) \<Rightarrow> bool \<Rightarrow> pyval list \<Rightarrow> (string \<rightharpoonup> pyval) \<Rightarrow> 'r" where
  "create_wrapped_browser_tool original headless_val =
     (\<lambda>args kwargs. original args (kwargs(''headless'' \<mapsto> PBool headless_val)))"

definition wrap_custom_tool :: "bool \<Rightarrow> ('s, 'r) tool \<Rightarrow> ('s, 'r) tool" where
  "wrap_custom_tool headless tool =
     (if name tool \<in> set browser_tool_names
      then \<lparr> name = name tool,
             description = description tool @ browser_mode_note headless,
             coroutine = create_wrapped_browser_tool (coroutine tool) headless,
             args_schema = args_schema tool \<rparr>
      else tool)"

definition wrapped_custom_tools :: "bool \<Rightarrow> ('s, 'r) tool list \<Rightarrow> ('s, 'r) tool list" where
  "wrapped_custom_tools headless custom_tools = map (wrap_custom_tool headless) custom_tools"

section \<open>The agent manager and the rebuild decision of the chat endpoints\<close>

text \<open>
  An agent instance is known by the order in which it was created (Python's
  object identity) and by what it was built from. \<open>created\<close> counts the
  instances built so far.
\<close>

datatype prompt = DefaultPrompt bool | CustomPrompt string

record agent_instance =
  inst_id :: nat
  inst_prompt :: prompt
  inst_model :: string
  inst_headless :: bool

record agent_manager =
  agent :: "agent_instance option"
  mcp_client :: "unit option"
  created :: nat

record chat_request =
  system_prompt :: "string option"
  model :: "string option"
  headless :: bool

datatype build_error = BuildFailed

text \<open>
  \<open>config_model\<close> is \<^verbatim>\<open>config.MODEL\<close>. \<open>mcp_enabled\<close> says whether an MCP client is
  created for the enabled servers. \<open>create_ok\<close> says for which prompt and
  model \<^verbatim>\<open>create_deep_agent\<close> returns; where it raises, \<^verbatim>\<open>self.agent\<close> is
  left as it was.
\<close>

record build_env =
  config_model :: string
  mcp_enabled :: bool
  create_ok :: "prompt \<Rightarrow> string \<Rightarrow> bool"

definition initialize_agent ::
  "build_env \<Rightarrow> agent_manager \<Rightarrow> string option \<Rightarrow> string option \<Rightarrow> bool
     \<Rightarrow> (build_error + agent_instance) \<times> agent_manager" where
  "initialize_agent env m instructions mdl hdl =
     (let m1 = (if mcp_enabled env then m\<lparr>mcp_client := Some ()\<rparr> else m);
          p = (case instructions of None \<Rightarrow> DefaultPrompt hdl | Some s \<Rightarrow> CustomPrompt s);
          selected_model = (case mdl of None \<Rightarrow> config_model env
                            | Some s \<Rightarrow> if s = [] then config_model env else s)
      in if create_ok env p selected_model
         then (let a = \<lparr> inst_id = created m, inst_prompt = p, inst_model = selected_model,
                         inst_headless = hdl \<rparr>
               in (Inr a, m1\<lparr>agent := Some a, created := Suc (created m)\<rparr>))
         else (Inl BuildFailed, m1))"

definition get_agent ::
  "build_env \<Rightarrow> agent_manager \<Rightarrow> (build_error + agent_instance) \<times> agent_manager" where
  "get_agent env m =
     (case agent m of
        None \<Rightarrow> initialize_agent env m None None True
      | Some a \<Rightarrow> (Inr a, m))"

definition reinitialize_agent ::
  "build_env \<Rightarrow> agent_manager \<Rightarrow> string option \<Rightarrow> string option \<Rightarrow> bool
     \<Rightarrow> (build_error + agent_instance) \<times> agent_manager" where
  "reinitialize_agent env m instructions mdl hdl =
     initialize_agent env (m\<lparr>agent := None, mcp_client := None\<rparr>) instructions mdl hdl"

text \<open>Truth value of an optional string: \<^verbatim>\<open>None\<close> and \<^verbatim>\<open>""\<close> are false.\<close>

fun truthy :: "string option \<Rightarrow> bool" where
  "truthy None = False"
| "truthy (Some s) = (s \<noteq> [])"

definition wants_reinit :: "chat_request \<Rightarrow> bool" where
  "wants_reinit request =
     (truthy (system_prompt request) \<or> truthy (model request) \<or> headless request \<noteq> True)"

text \<open>The first lines of \<^verbatim>\<open>chat\<close> and of \<^verbatim>\<open>structured_chat\<close>, up to \<^verbatim>\<open>get_agent()\<close>.\<close>

definition chat_agent ::
  "build_env \<Rightarrow> agent_manager \<Rightarrow> chat_request \<Rightarrow> (build_error + agent_instance) \<times> agent_manager" where
  "chat_agent env m request =
     (if wants_reinit request
      then (case reinitialize_agent env m (system_prompt request) (model request) (headless request) of
              (Inl e, m') \<Rightarrow> (Inl e, m')
            | (Inr a, m') \<Rightarrow> get_agent env m')
      else get_agent env m)"

section \<open>Conversation history passed to the agent\<close>

record chat_message =
  role :: string
  content :: string

text \<open>\<^verbatim>\<open>xs[i:]\<close> for any integer \<open>i\<close>.\<close>

definition slice_from :: "'a list \<Rightarrow> int \<Rightarrow> 'a list" where
  "slice_from xs i =
     (if i < 0 then drop (nat (max 0 (int (length xs) + i))) xs else drop (nat i) xs)"

definition limit_history :: "chat_message list \<Rightarrow> chat_message list" where
  "limit_history messages =
     (if length messages > 10 then slice_from messages (- 10) else messages)"

text \<open>
  \<^verbatim>\<open>structured_chat\<close> then appends its instruction to the last message when that
  is a user message.
\<close>

definition add_instruction :: "string \<Rightarrow> chat_message list \<Rightarrow> chat_message list" where
  "add_instruction structured_instruction messages =
     (if messages \<noteq> [] \<and> role (last messages) = ''user''
      then butlast messages
             @ [(last messages)\<lparr>content := content (last messages) @ structured_instruction\<rparr>]
      else messages)"

definition chat_messages :: "chat_message list \<Rightarrow> chat_message list" where
  "chat_messages messages = limit_history messages"

text \<open>
  The instruction of \<^verbatim>\<open>structured_chat\<close>. \<open>schema_str\<close> is the text
  \<^verbatim>\<open>json.dumps(request.structured_output_format, indent=2)\<close>.
\<close>

definition structured_instruction :: "string \<Rightarrow> string" where
  "structured_instruction schema_str =
     [CHR 0x0A, CHR 0x0A]
     @ ''IMPORTANT: You MUST respond with valid JSON matching this exact schema:''
     @ [CHR 0x0A] @ schema_str @ [CHR 0x0A, CHR 0x0A]
     @ ''Do not include any text outside the JSON object.''"

definition structured_chat_messages :: "string \<Rightarrow> chat_message list \<Rightarrow> chat_message list" where
  "structured_chat_messages schema_str messages =
     add_instruction (structured_instruction schema_str) (limit_history messages)"

section \<open>The streaming event mapper (\<^verbatim>\<open>generate\<close> in \<^verbatim>\<open>chat\<close>)\<close>

subsection \<open>Snapshots\<close>

text \<open>
  A tool call is a dict; \<open>None\<close> stands for a missing key. The \<^verbatim>\<open>id\<close> of a call
  may also be present with the value \<^verbatim>\<open>None\<close>.
\<close>

datatype call_id = NoId | NoneId | StrId string

record tool_call =
  tc_name :: "string option"
  tc_id :: call_id
  tc_args :: "pyval option"

text \<open>
  The last message of a snapshot is an \<^verbatim>\<open>AIMessage\<close> with its text and its tool
  calls, or a message of another class, given by its class name.
\<close>

datatype message = AIMessage string "tool_call list" | OtherMessage string

text \<open>A chunk is a dict; \<open>None\<close> is a chunk without the key \<^verbatim>\<open>messages\<close>.\<close>

type_synonym chunk = "message list option"

text \<open>
  What \<^verbatim>\<open>agent.astream\<close> does when asked for the next item: it yields a chunk or
  raises. The end of the list is the end of the stream.
\<close>

datatype step = Yield chunk | Raise string

subsection \<open>Events\<close>

text \<open>The dict \<^verbatim>\<open>{'type': ..., 'content': ...}\<close> and its server-sent-event line.\<close>

record event =
  kind :: string
  text_of :: string

definition mk_event :: "string \<Rightarrow> string \<Rightarrow> event" where
  "mk_event k c = \<lparr> kind = k, text_of = c \<rparr>"

definition sse :: "event \<Rightarrow> string" where
  "sse e =
     ''data: '' @ json_dumps (PDict [(''type'', PStr (kind e)), (''content'', PStr (text_of e))])
       @ [CHR 0x0A, CHR 0x0A]"

subsection \<open>State of one turn\<close>

record gen_state =
  final_response :: string
  step_count :: nat
  seen_tool_calls :: "string set"

definition init_state :: gen_state where
  "init_state = \<lparr> final_response = [], step_count = 0, seen_tool_calls = {} \<rparr>"

definition get_name :: "tool_call \<Rightarrow> string" where
  "get_name tc = (case tc_name tc of None \<Rightarrow> ''unknown'' | Some n \<Rightarrow> n)"

definition get_id :: "tool_call \<Rightarrow> string" where
  "get_id tc = (case tc_id tc of NoId \<Rightarrow> [] | NoneId \<Rightarrow> ''None'' | StrId i \<Rightarrow> i)"

definition tool_call_key :: "tool_call \<Rightarrow> string" where
  "tool_call_key tc = get_name tc @ ''_'' @ get_id tc"

definition thinking :: "tool_call \<Rightarrow> event" where
  "thinking tc = mk_event ''thinking'' (''Calling '' @ get_name tc @ ''...'')"

text \<open>
  Every yielded event is recorded with the tool call that caused it, if any;
  the stream the client reads is the second component.
\<close>

type_synonym emitted = "tool_call option \<times> event"

fun each_tool_call :: "gen_state \<Rightarrow> tool_call list \<Rightarrow> gen_state \<times> emitted list" where
  "each_tool_call st [] = (st, [])"
| "each_tool_call st (tc # tcs) =
     (if tool_call_key tc \<in> seen_tool_calls st then each_tool_call st tcs
      else (let st1 = st\<lparr> seen_tool_calls := insert (tool_call_key tc) (seen_tool_calls st),
                          step_count := step_count st + 1 \<rparr>;
                (st2, out) = each_tool_call st1 tcs
            in (st2, (Some tc, thinking tc) # out)))"

text \<open>\<^verbatim>\<open>str.strip()\<close>: the white space among the code points up to 255.\<close>

definition is_space :: "char \<Rightarrow> bool" where
  "is_space c =
     (let n = (of_char c :: nat)
      in (9 \<le> n \<and> n \<le> 13) \<or> (28 \<le> n \<and> n \<le> 32) \<or> n = 133 \<or> n = 160)"

definition strip :: "string \<Rightarrow> string" where
  "strip s = rev (dropWhile is_space (rev (dropWhile is_space s)))"

definition on_chunk :: "gen_state \<Rightarrow> chunk \<Rightarrow> gen_state \<times> emitted list" where
  "on_chunk st c =
     (case c of
        None \<Rightarrow> (st, [])
      | Some msgs \<Rightarrow>
          if msgs = [] then (st, [])
          else (case last msgs of
                  AIMessage txt tool_calls \<Rightarrow>
                    if tool_calls \<noteq> [] then each_tool_call st tool_calls
                    else if txt \<noteq> [] then
                      (let c' = strip txt
                       in if c' \<noteq> [] \<and> c' \<noteq> final_response st
                          then (st\<lparr> final_response := c' \<rparr>, [(None, mk_event ''token'' c')])
                          else (st, []))
                    else (st, [])
                | OtherMessage cls \<Rightarrow> (st, [])))"

definition final_event :: "gen_state \<Rightarrow> event" where
  "final_event st =
     (if final_response st \<noteq> [] then mk_event ''final'' (final_response st)
      else mk_event ''final'' ''Task completed.'')"

fun astream_loop :: "gen_state \<Rightarrow> step list \<Rightarrow> emitted list" where
  "astream_loop st [] = [(None, final_event st)]"
| "astream_loop st (Raise e # rest) = [(None, mk_event ''error'' e)]"
| "astream_loop st (Yield c # rest) =
     (let (st', out) = on_chunk st c in out @ astream_loop st' rest)"

definition generate_trace :: "step list \<Rightarrow> emitted list" where
  "generate_trace source = astream_loop init_state source"

definition generate_events :: "step list \<Rightarrow> event list" where
  "generate_events source = map snd (generate_trace source)"

definition generate :: "step list \<Rightarrow> string list" where
  "generate source = map sse (generate_events source)"

definition is_terminal :: "event \<Rightarrow> bool" where
  "is_terminal e = (kind e = ''final'' \<or> kind e = ''error'')"

text \<open>The identity of a tool call: its name and its call id, as the call carries them.\<close>

definition identity :: "tool_call \<Rightarrow> string option \<times> call_id" where
  "identity tc = (tc_name tc, tc_id tc)"

definition thinking_for :: "string option \<times> call_id \<Rightarrow> emitted \<Rightarrow> bool" where
  "thinking_for ident em =
     (case fst em of
        None \<Rightarrow> False
      | Some tc \<Rightarrow> identity tc = ident \<and> kind (snd em) = ''thinking'')"

section \<open>Auxiliary notions used in the statements\<close>

text \<open>A file system on which every operation succeeds.\<close>

definition all_ok :: spool_env where
  "all_ok = \<lparr> makedirs_ok = True, open_ok = True, write_ok = True, rewrite_ok = True \<rparr>"

text \<open>
  The tool results that the conversion step leaves as they are: values other
  than strings, strings that \<open>loads\<close> rejects, and the empty tuple.
\<close>

fun left_alone :: "(string \<Rightarrow> pyval option) \<Rightarrow> tool_result \<Rightarrow> bool" where
  "left_alone loads (Plain (PStr s)) = (loads s = None)"
| "left_alone loads (Plain v) = True"
| "left_alone loads (Tuple xs) = (xs = [])"

text \<open>The tool calls that caused the events of a trace, in order.\<close>

definition calls_of :: "emitted list \<Rightarrow> tool_call list" where
  "calls_of out = concat (map (\<lambda>em. case fst em of None \<Rightarrow> [] | Some tc \<Rightarrow> [tc]) out)"

text \<open>The state after a tool call has been surfaced.\<close>

definition mark_seen :: "gen_state \<Rightarrow> tool_call \<Rightarrow> gen_state" where
  "mark_seen st tc = st\<lparr> seen_tool_calls := insert (tool_call_key tc) (seen_tool_calls st),
                          step_count := step_count st + 1 \<rparr>"

text \<open>
  Instances are numbered in the order of their creation, so the instance a
  manager holds has a number below \<open>created\<close>.
\<close>

definition manager_ok :: "agent_manager \<Rightarrow> bool" where
  "manager_ok m = (case agent m of None \<Rightarrow> True | Some a \<Rightarrow> inst_id a < created m)"

text \<open>An environment in which every build succeeds, and the manager at start-up.\<close>

definition always_builds :: build_env where
  "always_builds = \<lparr> config_model = ''anthropic:claude-sonnet-4-20250514'', mcp_enabled = False,
                      create_ok = (\<lambda>p m. True) \<rparr>"

definition empty_manager :: agent_manager where
  "empty_manager = \<lparr> agent = None, mcp_client = None, created = 0 \<rparr>"

text \<open>A user message whose text is a number.\<close>

definition numbered :: "nat \<Rightarrow> chat_message" where
  "numbered n = \<lparr> role = ''user'', content = nat_str n \<rparr>"

section \<open>Properties of the wrapper around MCP tools\<close>

lemma json_escape_plain: "json_escape_char CHR ''a'' = ''a''"
  by (simp add: json_escape_char_def)

lemma length_json_string_replicate:
  "length (json_string (replicate n CHR ''a'')) = n + 2"
  by (simp add: json_string_def json_escape_plain length_concat sum_list_replicate)

lemma truncate_value_bound: "truncate_value v = PStr s \<Longrightarrow> length s \<le> 203"
  by (auto simp: truncate_value_def split: pyval.splits if_splits)

lemma keys_dict_set: "fst ` set (dict_set d k v) = insert k (fst ` set d)"
  by (induction d k v rule: dict_set.induct) auto

lemma in_dict_set: "kv \<in> set (dict_set d k v) \<Longrightarrow> kv = (k, v) \<or> kv \<in> set d"
  by (induction d k v rule: dict_set.induct) (auto split: if_splits)

lemma keys_truncate_items:
  "fst ` set (truncate_items acc items) = fst ` set acc \<union> fst ` set items"
  by (induction acc items rule: truncate_items.induct) (auto simp: keys_dict_set)

lemma in_truncate_items:
  "kv \<in> set (truncate_items acc items) \<Longrightarrow>
     kv \<in> set acc \<or> (\<exists>v0. (fst kv, v0) \<in> set items \<and> snd kv = truncate_value v0)"
proof (induction acc items rule: truncate_items.induct)
  case (1 acc)
  then show ?case by simp
next
  case (2 acc k v items)
  from 2 have "kv \<in> set (dict_set acc k (truncate_value v)) \<or>
     (\<exists>v0. (fst kv, v0) \<in> set items \<and> snd kv = truncate_value v0)" by simp
  then show ?case
  proof
    assume "kv \<in> set (dict_set acc k (truncate_value v))"
    then have "kv = (k, truncate_value v) \<or> kv \<in> set acc" by (rule in_dict_set)
    then show ?thesis by auto
  next
    assume "\<exists>v0. (fst kv, v0) \<in> set items \<and> snd kv = truncate_value v0"
    then show ?thesis by auto
  qed
qed

lemma dict_set_fresh: "k \<notin> fst ` set d \<Longrightarrow> dict_set d k v = d @ [(k, v)]"
  by (induction d k v rule: dict_set.induct) auto

lemma truncate_items_distinct:
  "distinct (map fst (acc @ items)) \<Longrightarrow>
     truncate_items acc items = acc @ map (\<lambda>kv. (fst kv, truncate_value (snd kv))) items"
proof (induction acc items rule: truncate_items.induct)
  case (1 acc)
  then show ?case by simp
next
  case (2 acc k v items)
  from 2(2) have fresh: "k \<notin> fst ` set acc" by auto
  from 2(2) have "distinct (map fst ((acc @ [(k, truncate_value v)]) @ items))" by auto
  with 2(1) fresh show ?case by (simp add: dict_set_fresh)
qed

lemma convert_left_alone: "left_alone loads raw \<Longrightarrow> py_value (convert loads raw) = raw"
  by (induction loads raw rule: left_alone.induct) (simp_all add: convert_def)

text \<open>
  Claim C2, as stated, fails: a result below the cap is not always handed back
  as the tool produced it. A tuple \<^verbatim>\<open>({"a": 1}, None)\<close> comes back as the dict
  \<^verbatim>\<open>{"a": 1}\<close>, and the string \<^verbatim>\<open>"true"\<close>, which \<^verbatim>\<open>json.loads\<close> decodes,
  comes back as the boolean \<^verbatim>\<open>True\<close>.
\<close>
theorem wrapped_func_converts_result:
  "fst (wrapped_func (\<lambda>args. Inr (Tuple [PDict [(''a'', PInt 1)], PNone])) Map.empty all_ok
          ''get_record'' ''20260101_120000'' ())
     = Inr (Val (PDict [(''a'', PInt 1)]))
   \<and> length (result_str (Val (PDict [(''a'', PInt 1)]))) = 8
   \<and> py_value (Val (PDict [(''a'', PInt 1)])) \<noteq> Tuple [PDict [(''a'', PInt 1)], PNone]
   \<and> fst (wrapped_func (\<lambda>args. Inr (Plain (PStr ''true''))) [''true'' \<mapsto> PBool True] all_ok
          ''get_record'' ''20260101_120000'' ())
     = Inr (Val (PBool True))
   \<and> length (result_str (Val (PBool True))) = 4
   \<and> py_value (Val (PBool True)) \<noteq> Plain (PStr ''true'')"
proof -
  have size: "length (result_str (Val (PDict [(''a'', PInt 1)]))) = 8"
    by code_simp
  show ?thesis
    by (simp add: wrapped_func_def arbitrate_def convert_def size del: result_str.simps(1))
qed

text \<open>
  Claim C2, amended: when the converted result (the first component of a tuple,
  the decoded value of a string that is JSON, the result itself otherwise)
  serialises to at most 10000 characters, \<^verbatim>\<open>wrapped_func\<close> returns the
  converted result unchanged and writes no file; a result that the conversion
  leaves alone is returned exactly as the tool produced it.
\<close>
theorem small_result_returned_after_conversion:
  assumes "original_func args = Inr raw"
    and "length (result_str (convert loads raw)) \<le> 10000"
  shows "wrapped_func original_func loads env tool_name timestamp args
           = (Inr (convert loads raw), None)
         \<and> (left_alone loads raw \<longrightarrow> py_value (convert loads raw) = raw)"
  using assms by (simp add: wrapped_func_def arbitrate_def convert_left_alone)

text \<open>Claim C2, amended, at the tool result \<^verbatim>\<open>"done"\<close>.\<close>
theorem small_result_returned_after_conversion_witness:
  "wrapped_func (\<lambda>args. Inr (Plain (PStr ''done''))) Map.empty all_ok ''get_record'' ''20260101_120000'' ()
     = (Inr (Val (PStr ''done'')), None)
   \<and> left_alone Map.empty (Plain (PStr ''done''))
   \<and> py_value (Val (PStr ''done'')) = Plain (PStr ''done'')"
  using small_result_returned_after_conversion [of "\<lambda>args. Inr (Plain (PStr ''done''))" "()" "Plain (PStr ''done'')" Map.empty
      all_ok "''get_record''" "''20260101_120000''"]
  by (simp add: convert_def)

text \<open>
  Claim C9: what \<^verbatim>\<open>wrapped_func\<close> returns does not depend on the name of the
  spool file. The file name is made of the tool name and the time stamp, and
  two runs that differ only in these return the same payload (or raise the
  same error), whatever the result and the state of the file system.
\<close>
theorem payload_independent_of_spool_filename:
  "fst (wrapped_func original_func loads env tool_name timestamp args)
     = fst (wrapped_func original_func loads env tool_name' timestamp' args)"
  by (simp add: wrapped_func_def arbitrate_def spool_def Let_def split: sum.splits)

lemma truncate_list_nth:
  "i < length xs \<Longrightarrow> i < 5 \<Longrightarrow> truncate_list xs ! i = truncate_item (xs ! i)"
  by (simp add: truncate_list_def Let_def nth_append)

lemma truncate_list_length:
  "length (truncate_list xs) = (if length xs > 5 then 6 else length xs)"
  by (simp add: truncate_list_def Let_def)

lemma truncate_list_marker:
  "length xs > 5 \<Longrightarrow> truncate_list xs ! 5 = PStr (more_items (length xs - 5))"
  by (simp add: truncate_list_def Let_def nth_append)

lemma preview_scalar:
  assumes "\<forall>items. r \<noteq> Val (PDict items)" and "\<forall>xs. r \<noteq> Val (PList xs)"
    and "length (result_str r) > 10000"
  shows "preview r = Val (PStr (take 2000 (result_str r) @ ''...''))"
  using assms by (cases r rule: preview.cases) simp_all

lemma truncate_dict_keys: "fst ` set (truncate_dict items) = fst ` set items"
  by (simp add: truncate_dict_def keys_truncate_items)

lemma truncate_dict_values:
  "kv \<in> set (truncate_dict items) \<Longrightarrow> \<exists>v0. (fst kv, v0) \<in> set items \<and> snd kv = truncate_value v0"
  using in_truncate_items [of kv "[]" items] by (simp add: truncate_dict_def)

lemma truncate_dict_strings: "(k, PStr s) \<in> set (truncate_dict items) \<Longrightarrow> length s \<le> 203"
  using truncate_dict_values [of "(k, PStr s)" items] truncate_value_bound by fastforce

lemma truncate_dict_distinct:
  "distinct (map fst items) \<Longrightarrow>
     truncate_dict items = map (\<lambda>kv. (fst kv, truncate_value (snd kv))) items"
  using truncate_items_distinct [of "[]" items] by (simp add: truncate_dict_def)

lemma arbitrate_big:
  assumes "length (result_str (convert loads raw)) > 10000"
    and "fst (arbitrate loads env tool_name timestamp raw) = Inr p"
  shows "p = preview (convert loads raw)"
  using assms by (auto simp: arbitrate_def Let_def split: prod.splits sum.splits)

text \<open>
  Claim C3, as stated, fails: the delivered payload is not bounded by the cap
  plus a constant, and a top-level value of a mapping that is not a string is
  not bounded. The dict \<^verbatim>\<open>{"data": ["aaa..."]}\<close> with a string of 20000
  characters serialises to 20014 characters and is delivered unchanged.
\<close>
theorem preview_size_not_bounded:
  "fst (wrapped_func (\<lambda>args. Inr (Plain (PDict [(''data'', PList [PStr (replicate 20000 CHR ''a'')])])))
          Map.empty all_ok ''run_query'' ''20260101_120000'' ())
     = Inr (Val (PDict [(''data'', PList [PStr (replicate 20000 CHR ''a'')])]))
   \<and> length (result_str (Val (PDict [(''data'', PList [PStr (replicate 20000 CHR ''a'')])]))) = 20014
   \<and> length (json_dumps (PList [PStr (replicate 20000 CHR ''a'')])) = 20004"
proof -
  have key: "length (json_string ''data'') = 6"
    by (simp add: json_string_def json_escape_char_def)
  have size: "length (result_str (Val (PDict [(''data'', PList [PStr (replicate 20000 CHR ''a'')])]))) = 20014"
    by (simp add: length_json_string_replicate key)
  have inner: "length (json_dumps (PList [PStr (replicate 20000 CHR ''a'')])) = 20004"
    by (simp add: length_json_string_replicate)
  have tv: "truncate_value (PList [PStr (replicate 20000 CHR ''a'')]) = PList [PStr (replicate 20000 CHR ''a'')]"
    by (simp add: truncate_value_def)
  have out: "fst (wrapped_func (\<lambda>args. Inr (Plain (PDict [(''data'', PList [PStr (replicate 20000 CHR ''a'')])])))
          Map.empty all_ok ''run_query'' ''20260101_120000'' ())
     = Inr (Val (PDict [(''data'', PList [PStr (replicate 20000 CHR ''a'')])]))"
    by (simp add: wrapped_func_def arbitrate_def convert_def size spool_def all_ok_def
        truncate_dict_def tv Let_def del: result_str.simps(1))
  from out size inner show ?thesis by blast
qed

text \<open>
  Claim C3, amended: for a result above the cap that \<^verbatim>\<open>wrapped_func\<close> returns,
  \<^item> a mapping keeps exactly its top-level keys, every value is the truncation of
    a value of the same key, every top-level string value has at most 203
    characters (its first 200 and the ellipsis), and with distinct keys the
    payload is the mapping with \<open>truncate_value\<close> applied to each value,
    which leaves values that are not strings unchanged;
  \<^item> a sequence keeps its first five elements, dicts among them truncated, and
    gets one marker element when it had more, so at most six elements;
  \<^item> anything else is delivered as the first 2000 characters of its text and
    the ellipsis, 2003 characters.
  Only the last case bounds the size of the payload.
\<close>
theorem preview_shape:
  assumes "original_func args = Inr raw"
    and "length (result_str (convert loads raw)) > 10000"
    and "fst (wrapped_func original_func loads env tool_name timestamp args) = Inr p"
  shows "(\<forall>items. convert loads raw = Val (PDict items) \<longrightarrow>
            (\<exists>out. p = Val (PDict out)
               \<and> fst ` set out = fst ` set items
               \<and> (\<forall>kv \<in> set out. \<exists>v0. (fst kv, v0) \<in> set items \<and> snd kv = truncate_value v0)
               \<and> (\<forall>k s. (k, PStr s) \<in> set out \<longrightarrow> length s \<le> 203)
               \<and> (distinct (map fst items) \<longrightarrow>
                    out = map (\<lambda>kv. (fst kv, truncate_value (snd kv))) items)))
       \<and> (\<forall>xs. convert loads raw = Val (PList xs) \<longrightarrow>
            (\<exists>ys. p = Val (PList ys)
               \<and> length ys = (if length xs > 5 then 6 else length xs)
               \<and> (\<forall>i. i < length xs \<and> i < 5 \<longrightarrow> ys ! i = truncate_item (xs ! i))
               \<and> (length xs > 5 \<longrightarrow> ys ! 5 = PStr (more_items (length xs - 5)))))
       \<and> ((\<forall>items. convert loads raw \<noteq> Val (PDict items)) \<and> (\<forall>xs. convert loads raw \<noteq> Val (PList xs)) \<longrightarrow>
            p = Val (PStr (take 2000 (result_str (convert loads raw)) @ ''...''))
            \<and> length (result_str p) = 2003)"
proof -
  from assms(1,3) have "fst (arbitrate loads env tool_name timestamp raw) = Inr p"
    by (simp add: wrapped_func_def)
  with assms(2) have p: "p = preview (convert loads raw)"
    by (rule arbitrate_big)
  have dict: "\<forall>items. convert loads raw = Val (PDict items) \<longrightarrow>
            (\<exists>out. p = Val (PDict out)
               \<and> fst ` set out = fst ` set items
               \<and> (\<forall>kv \<in> set out. \<exists>v0. (fst kv, v0) \<in> set items \<and> snd kv = truncate_value v0)
               \<and> (\<forall>k s. (k, PStr s) \<in> set out \<longrightarrow> length s \<le> 203)
               \<and> (distinct (map fst items) \<longrightarrow>
                    out = map (\<lambda>kv. (fst kv, truncate_value (snd kv))) items))"
  proof (intro allI impI)
    fix items assume c: "convert loads raw = Val (PDict items)"
    have "p = Val (PDict (truncate_dict items))" using p c by simp
    moreover have "fst ` set (truncate_dict items) = fst ` set items"
      by (rule truncate_dict_keys)
    moreover have "\<forall>kv \<in> set (truncate_dict items). \<exists>v0. (fst kv, v0) \<in> set items \<and> snd kv = truncate_value v0"
      using truncate_dict_values by blast
    moreover have "\<forall>k s. (k, PStr s) \<in> set (truncate_dict items) \<longrightarrow> length s \<le> 203"
      using truncate_dict_strings by blast
    moreover have "distinct (map fst items) \<longrightarrow>
        truncate_dict items = map (\<lambda>kv. (fst kv, truncate_value (snd kv))) items"
      using truncate_dict_distinct by blast
    ultimately show "\<exists>out. p = Val (PDict out)
               \<and> fst ` set out = fst ` set items
               \<and> (\<forall>kv \<in> set out. \<exists>v0. (fst kv, v0) \<in> set items \<and> snd kv = truncate_value v0)
               \<and> (\<forall>k s. (k, PStr s) \<in> set out \<longrightarrow> length s \<le> 203)
               \<and> (distinct (map fst items) \<longrightarrow>
                    out = map (\<lambda>kv. (fst kv, truncate_value (snd kv))) items)"
      by blast
  qed
  have list: "\<forall>xs. convert loads raw = Val (PList xs) \<longrightarrow>
            (\<exists>ys. p = Val (PList ys)
               \<and> length ys = (if length xs > 5 then 6 else length xs)
               \<and> (\<forall>i. i < length xs \<and> i < 5 \<longrightarrow> ys ! i = truncate_item (xs ! i))
               \<and> (length xs > 5 \<longrightarrow> ys ! 5 = PStr (more_items (length xs - 5))))"
  proof (intro allI impI)
    fix xs assume c: "convert loads raw = Val (PList xs)"
    have "p = Val (PList (truncate_list xs))" using p c by simp
    then show "\<exists>ys. p = Val (PList ys)
               \<and> length ys = (if length xs > 5 then 6 else length xs)
               \<and> (\<forall>i. i < length xs \<and> i < 5 \<longrightarrow> ys ! i = truncate_item (xs ! i))
               \<and> (length xs > 5 \<longrightarrow> ys ! 5 = PStr (more_items (length xs - 5)))"
      using truncate_list_length [of xs] truncate_list_nth [of _ xs] truncate_list_marker [of xs]
      by auto
  qed
  have scalar: "(\<forall>items. convert loads raw \<noteq> Val (PDict items)) \<and> (\<forall>xs. convert loads raw \<noteq> Val (PList xs)) \<longrightarrow>
            p = Val (PStr (take 2000 (result_str (convert loads raw)) @ ''...''))
            \<and> length (result_str p) = 2003"
  proof
    assume a: "(\<forall>items. convert loads raw \<noteq> Val (PDict items)) \<and> (\<forall>xs. convert loads raw \<noteq> Val (PList xs))"
    then have "p = Val (PStr (take 2000 (result_str (convert loads raw)) @ ''...''))"
      using p preview_scalar [of "convert loads raw"] assms(2) by simp
    then show "p = Val (PStr (take 2000 (result_str (convert loads raw)) @ ''...''))
            \<and> length (result_str p) = 2003"
      using assms(2) by simp
  qed
  from dict list scalar show ?thesis by blast
qed

lemma length_json_key: "length (json_string ''body'') = 6" "length (json_string ''id'') = 4"
  by (simp_all add: json_string_def json_escape_char_def)

lemma length_int_str_7: "length (int_str 7) = 1"
  by (simp add: int_str_def nat_str.simps)

text \<open>
  Claim C3, amended, at a mapping, a sequence of seven elements and a string,
  each of more than 10000 characters.
\<close>
theorem preview_shape_witness:
  "length (result_str (convert Map.empty
       (Plain (PDict [(''body'', PStr (replicate 20000 CHR ''a'')), (''id'', PInt 7)])))) > 10000
   \<and> fst (wrapped_func (\<lambda>args. Inr (Plain (PDict [(''body'', PStr (replicate 20000 CHR ''a'')), (''id'', PInt 7)])))
          Map.empty all_ok ''run_query'' ''20260101_120000'' ())
       = Inr (Val (PDict [(''body'', PStr (replicate 200 CHR ''a'' @ ''...'')), (''id'', PInt 7)]))
   \<and> length (replicate 200 CHR ''a'' @ ''...'') \<le> 203
   \<and> length (result_str (convert Map.empty
       (Plain (PList [PStr (replicate 20000 CHR ''a''), PNone, PNone, PNone, PNone, PNone, PNone])))) > 10000
   \<and> fst (wrapped_func (\<lambda>args. Inr (Plain (PList [PStr (replicate 20000 CHR ''a''), PNone, PNone, PNone, PNone, PNone, PNone])))
          Map.empty all_ok ''run_query'' ''20260101_120000'' ())
       = Inr (Val (PList [PStr (replicate 20000 CHR ''a''), PNone, PNone, PNone, PNone,
                          PStr (more_items 2)]))
   \<and> length (result_str (convert Map.empty (Plain (PStr (replicate 20000 CHR ''a''))))) > 10000
   \<and> fst (wrapped_func (\<lambda>args. Inr (Plain (PStr (replicate 20000 CHR ''a''))))
          Map.empty all_ok ''run_query'' ''20260101_120000'' ())
       = Inr (Val (PStr (replicate 2000 CHR ''a'' @ ''...'')))
   \<and> length (result_str (Val (PStr (replicate 2000 CHR ''a'' @ ''...'')))) = 2003"
proof -
  let ?d = "Plain (PDict [(''body'', PStr (replicate 20000 CHR ''a'')), (''id'', PInt 7)])"
  let ?pd = "Val (PDict [(''body'', PStr (replicate 200 CHR ''a'' @ ''...'')), (''id'', PInt 7)])"
  let ?l = "Plain (PList [PStr (replicate 20000 CHR ''a''), PNone, PNone, PNone, PNone, PNone, PNone])"
  let ?pl = "Val (PList [PStr (replicate 20000 CHR ''a''), PNone, PNone, PNone, PNone, PStr (more_items 2)])"
  let ?s = "Plain (PStr (replicate 20000 CHR ''a''))"
  let ?ps = "Val (PStr (replicate 2000 CHR ''a'' @ ''...''))"
  have cd: "convert Map.empty ?d = Val (PDict [(''body'', PStr (replicate 20000 CHR ''a'')), (''id'', PInt 7)])"
    by (simp add: convert_def)
  have cl: "convert Map.empty ?l = Val (PList [PStr (replicate 20000 CHR ''a''), PNone, PNone, PNone, PNone, PNone, PNone])"
    by (simp add: convert_def)
  have cs: "convert Map.empty ?s = Val (PStr (replicate 20000 CHR ''a''))"
    by (simp add: convert_def)
  have bd: "length (result_str (convert Map.empty ?d)) > 10000"
    unfolding cd by (simp add: length_json_string_replicate length_json_key length_int_str_7)
  have bl: "length (result_str (convert Map.empty ?l)) > 10000"
    unfolding cl by (simp add: length_json_string_replicate)
  have bs: "length (result_str (convert Map.empty ?s)) > 10000"
    unfolding cs by simp
  have tv: "truncate_value (PStr (replicate 20000 CHR ''a'')) = PStr (replicate 200 CHR ''a'' @ ''...'')"
    "truncate_value (PInt 7) = PInt 7"
    by (simp_all add: truncate_value_def)
  have pd: "preview (convert Map.empty ?d) = ?pd"
    unfolding cd by (simp add: truncate_dict_def tv)
  have pl: "preview (convert Map.empty ?l) = ?pl"
    unfolding cl by (simp add: truncate_list_def truncate_item_def numeral_2_eq_2)
  have ps: "preview (convert Map.empty ?s) = ?ps"
    unfolding cs by simp
  have od: "fst (wrapped_func (\<lambda>args. Inr ?d) Map.empty all_ok ''run_query'' ''20260101_120000'' ()) = Inr ?pd"
    using bd pd by (simp add: wrapped_func_def arbitrate_def spool_def all_ok_def Let_def)
  have ol: "fst (wrapped_func (\<lambda>args. Inr ?l) Map.empty all_ok ''run_query'' ''20260101_120000'' ()) = Inr ?pl"
    using bl pl by (simp add: wrapped_func_def arbitrate_def spool_def all_ok_def Let_def)
  have os: "fst (wrapped_func (\<lambda>args. Inr ?s) Map.empty all_ok ''run_query'' ''20260101_120000'' ()) = Inr ?ps"
    using bs ps by (simp add: wrapped_func_def arbitrate_def spool_def all_ok_def Let_def)
  have "length (replicate 200 CHR ''a'' @ ''...'') \<le> 203"
    using preview_shape [OF refl bd od] by (simp add: cd)
  moreover have "length (result_str ?ps) = 2003"
    using preview_shape [OF refl bs os] by (simp add: cs)
  moreover note preview_shape [OF refl bl ol]
  ultimately show ?thesis using bd od bl ol bs os by blast
qed

text \<open>
  Claim C4, as stated, fails: when \<^verbatim>\<open>open\<close> fails for an oversized result,
  \<^verbatim>\<open>wrapped_func\<close> raises and returns no payload.
\<close>
theorem open_failure_blocks_preview:
  "length (result_str (convert Map.empty (Plain (PStr (replicate 20000 CHR ''a''))))) = 20000
   \<and> wrapped_func (\<lambda>args. Inr (Plain (PStr (replicate 20000 CHR ''a'')))) Map.empty
        \<lparr> makedirs_ok = True, open_ok = False, write_ok = True, rewrite_ok = True \<rparr>
        ''run_query'' ''20260101_120000'' ()
     = (Inl OpenFailed, None)"
  by (simp add: wrapped_func_def arbitrate_def spool_def convert_def Let_def)

text \<open>
  Claim C4, amended: for an oversized result, a failure of the write inside
  \<^verbatim>\<open>try\<close> is caught and the text is written again; the truncated payload is
  returned when \<^verbatim>\<open>os.makedirs\<close> and \<^verbatim>\<open>open\<close> succeed and one of the two
  writes succeeds. When \<^verbatim>\<open>os.makedirs\<close>, \<^verbatim>\<open>open\<close> or both writes fail, the
  exception leaves \<^verbatim>\<open>wrapped_func\<close> and no payload is returned.
\<close>
theorem outcome_of_oversized_result:
  assumes "original_func args = Inr raw"
    and "length (result_str (convert loads raw)) > 10000"
  shows "fst (wrapped_func original_func loads env tool_name timestamp args) =
           (if \<not> makedirs_ok env then Inl MakedirsFailed
            else if \<not> open_ok env then Inl OpenFailed
            else if write_ok env \<or> rewrite_ok env then Inr (preview (convert loads raw))
            else Inl WriteFailed)"
  using assms by (simp add: wrapped_func_def arbitrate_def spool_def Let_def)

text \<open>
  Claim C4, amended, at a string of 20000 characters whose first write fails
  and whose second write succeeds.
\<close>
theorem outcome_of_oversized_result_witness:
  "length (result_str (convert Map.empty (Plain (PStr (replicate 20000 CHR ''a''))))) > 10000
   \<and> fst (wrapped_func (\<lambda>args. Inr (Plain (PStr (replicate 20000 CHR ''a'')))) Map.empty
        \<lparr> makedirs_ok = True, open_ok = True, write_ok = False, rewrite_ok = True \<rparr>
        ''run_query'' ''20260101_120000'' ())
     = Inr (Val (PStr (replicate 2000 CHR ''a'' @ ''...'')))"
proof -
  have c: "convert Map.empty (Plain (PStr (replicate 20000 CHR ''a''))) = Val (PStr (replicate 20000 CHR ''a''))"
    by (simp add: convert_def)
  have b: "length (result_str (convert Map.empty (Plain (PStr (replicate 20000 CHR ''a''))))) > 10000"
    unfolding c by simp
  show ?thesis
    using b outcome_of_oversized_result [of "\<lambda>args. Inr (Plain (PStr (replicate 20000 CHR ''a'')))" "()"
        "Plain (PStr (replicate 20000 CHR ''a''))" Map.empty
        "\<lparr> makedirs_ok = True, open_ok = True, write_ok = False, rewrite_ok = True \<rparr>"
        "''run_query''" "''20260101_120000''"]
    by (simp add: c)
qed

section \<open>Properties of the streaming event mapper\<close>

subsection \<open>Two runs of the mapper\<close>

text \<open>
  A call surfaced once although two snapshots name it, followed by two texts;
  and a source that raises after one text.
\<close>

lemma strip_examples:
  "strip ''partial'' = ''partial''" "strip ''final answer'' = ''final answer''"
  "strip ('' ok'' @ [CHR 0x0A]) = ''ok''"
  by (simp_all add: strip_def is_space_def)

lemma repeated_call_example:
  "generate_events
     [Yield (Some [AIMessage [] [\<lparr> tc_name = Some ''search'', tc_id = StrId ''A'', tc_args = None \<rparr>]]),
      Yield (Some [AIMessage [] [\<lparr> tc_name = Some ''search'', tc_id = StrId ''A'', tc_args = None \<rparr>]]),
      Yield (Some [AIMessage ''partial'' []]),
      Yield (Some [AIMessage ''final answer'' []])]
   = [mk_event ''thinking'' ''Calling search...'',
      mk_event ''token'' ''partial'',
      mk_event ''token'' ''final answer'',
      mk_event ''final'' ''final answer'']"
  by (simp add: generate_events_def generate_trace_def init_state_def on_chunk_def thinking_def
      get_name_def final_event_def tool_call_key_def get_id_def strip_examples Let_def)

lemma failing_source_example:
  "generate_events [Yield (Some [AIMessage ''partial'' []]), Raise ''boom'', Yield None]
   = [mk_event ''token'' ''partial'', mk_event ''error'' ''boom'']"
  by (simp add: generate_events_def generate_trace_def init_state_def on_chunk_def strip_examples Let_def)

lemma sse_example:
  "generate [Raise ''boom'']
   = [''data: {'' @ [CHR 0x22] @ ''type'' @ [CHR 0x22] @ '': '' @ [CHR 0x22] @ ''error'' @ [CHR 0x22]
        @ '', '' @ [CHR 0x22] @ ''content'' @ [CHR 0x22] @ '': '' @ [CHR 0x22] @ ''boom'' @ [CHR 0x22]
        @ ''}'' @ [CHR 0x0A, CHR 0x0A]]"
  by (simp add: generate_def generate_events_def generate_trace_def sse_def mk_event_def
      json_string_def json_escape_char_def)

subsection \<open>The loop over the tool calls of a message\<close>

lemma calls_of_simps [simp]:
  "calls_of [] = []"
  "calls_of ((None, e) # out) = calls_of out"
  "calls_of ((Some tc, e) # out) = tc # calls_of out"
  "calls_of (xs @ ys) = calls_of xs @ calls_of ys"
  by (simp_all add: calls_of_def)

lemma mark_seen_simps [simp]:
  "seen_tool_calls (mark_seen st tc) = insert (tool_call_key tc) (seen_tool_calls st)"
  "final_response (mark_seen st tc) = final_response st"
  by (simp_all add: mark_seen_def)

lemma each_tool_call_skip:
  "tool_call_key tc \<in> seen_tool_calls st \<Longrightarrow> each_tool_call st (tc # tcs) = each_tool_call st tcs"
  by simp

lemma each_tool_call_take:
  "tool_call_key tc \<notin> seen_tool_calls st \<Longrightarrow>
     each_tool_call st (tc # tcs) =
       (fst (each_tool_call (mark_seen st tc) tcs),
        (Some tc, thinking tc) # snd (each_tool_call (mark_seen st tc) tcs))"
  by (simp add: mark_seen_def split: prod.splits)

lemma each_tool_call_seen:
  "seen_tool_calls (fst (each_tool_call st tcs)) = seen_tool_calls st \<union> tool_call_key ` set tcs
   \<and> final_response (fst (each_tool_call st tcs)) = final_response st"
proof (induction tcs arbitrary: st)
  case Nil
  then show ?case by simp
next
  case (Cons tc tcs)
  show ?case
  proof (cases "tool_call_key tc \<in> seen_tool_calls st")
    case True
    have e: "each_tool_call st (tc # tcs) = each_tool_call st tcs"
      using True by (rule each_tool_call_skip)
    show ?thesis
      unfolding e using Cons [of st] True by auto
  next
    case False
    have e: "fst (each_tool_call st (tc # tcs)) = fst (each_tool_call (mark_seen st tc) tcs)"
      unfolding each_tool_call_take [OF False] by simp
    show ?thesis
      unfolding e using Cons [of "mark_seen st tc"] by auto
  qed
qed

lemma each_tool_call_out:
  "snd (each_tool_call st tcs) = map (\<lambda>tc. (Some tc, thinking tc)) (calls_of (snd (each_tool_call st tcs)))
     \<and> set (calls_of (snd (each_tool_call st tcs))) \<subseteq> set tcs
     \<and> distinct (map tool_call_key (calls_of (snd (each_tool_call st tcs))))
     \<and> tool_call_key ` set (calls_of (snd (each_tool_call st tcs)))
         = tool_call_key ` set tcs - seen_tool_calls st"
proof (induction tcs arbitrary: st)
  case Nil
  then show ?case by simp
next
  case (Cons tc tcs)
  show ?case
  proof (cases "tool_call_key tc \<in> seen_tool_calls st")
    case True
    have e: "each_tool_call st (tc # tcs) = each_tool_call st tcs"
      using True by (rule each_tool_call_skip)
    note ih = Cons [of st]
    have "tool_call_key ` set (tc # tcs) - seen_tool_calls st = tool_call_key ` set tcs - seen_tool_calls st"
      using True by auto
    with ih show ?thesis unfolding e by auto
  next
    case False
    let ?out2 = "snd (each_tool_call (mark_seen st tc) tcs)"
    have e: "snd (each_tool_call st (tc # tcs)) = (Some tc, thinking tc) # ?out2"
      unfolding each_tool_call_take [OF False] by simp
    note ih = Cons [of "mark_seen st tc"]
    have c: "calls_of ((Some tc, thinking tc) # ?out2) = tc # calls_of ?out2" by simp
    have k: "tool_call_key ` set (calls_of ?out2) = tool_call_key ` set tcs - insert (tool_call_key tc) (seen_tool_calls st)"
      using ih by simp
    have a: "(Some tc, thinking tc) # ?out2 = map (\<lambda>tc. (Some tc, thinking tc)) (tc # calls_of ?out2)"
      using ih by simp
    have b: "set (tc # calls_of ?out2) \<subseteq> set (tc # tcs)"
      using ih by auto
    have d: "distinct (map tool_call_key (tc # calls_of ?out2))"
      using ih k by auto
    have f: "tool_call_key ` set (tc # calls_of ?out2) = tool_call_key ` set (tc # tcs) - seen_tool_calls st"
      using k False by auto
    show ?thesis unfolding e c using a b d f by blast
  qed
qed

lemma on_chunk_cases:
  "(\<exists>tcs. on_chunk st c = each_tool_call st tcs)
   \<or> (\<exists>txt. on_chunk st c = (st\<lparr> final_response := txt \<rparr>, [(None, mk_event ''token'' txt)]))
   \<or> on_chunk st c = (st, [])"
  by (auto simp: on_chunk_def Let_def split: option.splits message.splits)

lemma thinking_not_terminal: "\<not> is_terminal (thinking tc)"
  by (simp add: is_terminal_def thinking_def mk_event_def)

lemma token_not_terminal: "\<not> is_terminal (mk_event ''token'' txt)"
  by (simp add: is_terminal_def mk_event_def)

lemma each_tool_call_not_terminal:
  "em \<in> set (snd (each_tool_call st tcs)) \<Longrightarrow> \<not> is_terminal (snd em)"
proof -
  assume a: "em \<in> set (snd (each_tool_call st tcs))"
  have "snd (each_tool_call st tcs)
      = map (\<lambda>tc. (Some tc, thinking tc)) (calls_of (snd (each_tool_call st tcs)))"
    using each_tool_call_out [of st tcs] by blast
  with a have "em \<in> set (map (\<lambda>tc. (Some tc, thinking tc)) (calls_of (snd (each_tool_call st tcs))))"
    by simp
  then obtain tc where "em = (Some tc, thinking tc)" by auto
  then show ?thesis by (simp add: thinking_not_terminal)
qed

lemma on_chunk_not_terminal:
  "em \<in> set (snd (on_chunk st c)) \<Longrightarrow> \<not> is_terminal (snd em)"
  using on_chunk_cases [of st c] each_tool_call_not_terminal [of em st]
  by (auto simp: token_not_terminal)

lemma on_chunk_keys:
  "distinct (map tool_call_key (calls_of (snd (on_chunk st c))))
   \<and> tool_call_key ` set (calls_of (snd (on_chunk st c))) \<inter> seen_tool_calls st = {}
   \<and> seen_tool_calls (fst (on_chunk st c))
        = seen_tool_calls st \<union> tool_call_key ` set (calls_of (snd (on_chunk st c)))"
proof -
  consider (calls) tcs where "on_chunk st c = each_tool_call st tcs"
    | (token) t where "on_chunk st c = (st\<lparr> final_response := t \<rparr>, [(None, mk_event ''token'' t)])"
    | (none) "on_chunk st c = (st, [])"
    using on_chunk_cases [of st c] by blast
  then show ?thesis
  proof cases
    case calls
    show ?thesis
      unfolding calls using each_tool_call_out [of st tcs] each_tool_call_seen [of st tcs] by auto
  next
    case token
    then show ?thesis by simp
  next
    case none
    then show ?thesis by simp
  qed
qed

lemma astream_loop_Yield:
  "astream_loop st (Yield c # rest) = snd (on_chunk st c) @ astream_loop (fst (on_chunk st c)) rest"
  by (simp add: split_def Let_def)

lemma astream_loop_keys:
  "distinct (map tool_call_key (calls_of (astream_loop st source)))
   \<and> tool_call_key ` set (calls_of (astream_loop st source)) \<inter> seen_tool_calls st = {}"
proof (induction source arbitrary: st)
  case Nil
  then show ?case by simp
next
  case (Cons s source)
  show ?case
  proof (cases s)
    case (Yield c)
    let ?o1 = "calls_of (snd (on_chunk st c))"
    let ?o2 = "calls_of (astream_loop (fst (on_chunk st c)) source)"
    have e: "calls_of (astream_loop st (s # source)) = ?o1 @ ?o2"
      unfolding Yield astream_loop_Yield by simp
    note k = on_chunk_keys [of st c]
    note ih = Cons [of "fst (on_chunk st c)"]
    have d1: "distinct (map tool_call_key ?o1)" using k by blast
    have d2: "distinct (map tool_call_key ?o2)" using ih by blast
    have i1: "tool_call_key ` set ?o1 \<inter> seen_tool_calls st = {}" using k by blast
    have i2: "tool_call_key ` set ?o2 \<inter> (seen_tool_calls st \<union> tool_call_key ` set ?o1) = {}"
      using ih k by simp
    have "distinct (map tool_call_key (?o1 @ ?o2))"
      using d1 d2 i2 by auto
    moreover have "tool_call_key ` set (?o1 @ ?o2) \<inter> seen_tool_calls st = {}"
      using i1 i2 by auto
    ultimately show ?thesis unfolding e by blast
  next
    case (Raise e)
    then show ?thesis by simp
  qed
qed

lemma identity_key: "identity a = identity b \<Longrightarrow> tool_call_key a = tool_call_key b"
  by (simp add: identity_def tool_call_key_def get_name_def get_id_def)

lemma filter_identity_le_1:
  "distinct (map tool_call_key tcs) \<Longrightarrow> length (filter (\<lambda>tc. identity tc = ident) tcs) \<le> 1"
proof (induction tcs)
  case Nil
  then show ?case by simp
next
  case (Cons tc tcs)
  show ?case
  proof (cases "identity tc = ident")
    case True
    have "filter (\<lambda>t. identity t = ident) tcs = []"
    proof (rule ccontr)
      assume "filter (\<lambda>t. identity t = ident) tcs \<noteq> []"
      then obtain t where t: "t \<in> set tcs" "identity t = ident"
        by (auto simp: filter_empty_conv)
      with True have "tool_call_key t = tool_call_key tc" by (simp add: identity_key)
      moreover from Cons.prems have "tool_call_key tc \<notin> tool_call_key ` set tcs" by simp
      ultimately show False using t(1) by (metis imageI)
    qed
    with True show ?thesis by simp
  next
    case False
    with Cons show ?thesis by simp
  qed
qed

lemma filter_thinking_for:
  "length (filter (thinking_for ident) out) \<le> length (filter (\<lambda>tc. identity tc = ident) (calls_of out))"
proof (induction out)
  case Nil
  then show ?case by simp
next
  case (Cons em out)
  obtain o' e where em: "em = (o', e)" by (cases em)
  show ?case
  proof (cases o')
    case None
    with Cons em show ?thesis by (simp add: thinking_for_def)
  next
    case (Some tc)
    with Cons em show ?thesis by (simp add: thinking_for_def)
  qed
qed

text \<open>
  Claim C5: over the whole stream mapped from any source, the tool calls with
  one identity (tool name and call id) cause at most one thinking event, also
  when the identity occurs in several snapshots, adjacent or not. The trace
  records with each event the tool call that caused it.
\<close>
theorem one_thinking_event_per_identity:
  "length (filter (thinking_for ident) (generate_trace source)) \<le> 1"
proof -
  have "distinct (map tool_call_key (calls_of (generate_trace source)))"
    unfolding generate_trace_def using astream_loop_keys [of init_state source] by blast
  then have "length (filter (\<lambda>tc. identity tc = ident) (calls_of (generate_trace source))) \<le> 1"
    by (rule filter_identity_le_1)
  with filter_thinking_for [of ident "generate_trace source"] show ?thesis by linarith
qed

lemma final_event_terminal: "is_terminal (final_event st)" "kind (final_event st) \<noteq> ''error''"
  by (simp_all add: final_event_def is_terminal_def mk_event_def)

lemma error_event_terminal: "is_terminal (mk_event ''error'' e)" "kind (mk_event ''error'' e) = ''error''"
  by (simp_all add: is_terminal_def mk_event_def)

lemma astream_loop_shape:
  "\<exists>pre t. astream_loop st source = pre @ [t]
     \<and> (\<forall>em \<in> set pre. \<not> is_terminal (snd em))
     \<and> is_terminal (snd t)
     \<and> (kind (snd t) = ''error'') = (\<exists>e. Raise e \<in> set source)"
proof (induction source arbitrary: st)
  case Nil
  have "astream_loop st [] = [] @ [(None, final_event st)]" by simp
  then show ?case using final_event_terminal [of st] by fastforce
next
  case (Cons s source)
  show ?case
  proof (cases s)
    case (Yield c)
    obtain pre t where ih: "astream_loop (fst (on_chunk st c)) source = pre @ [t]"
      "\<forall>em \<in> set pre. \<not> is_terminal (snd em)" "is_terminal (snd t)"
      "(kind (snd t) = ''error'') = (\<exists>e. Raise e \<in> set source)"
      using Cons [of "fst (on_chunk st c)"] by blast
    have a: "astream_loop st (s # source) = (snd (on_chunk st c) @ pre) @ [t]"
      unfolding Yield astream_loop_Yield ih(1) by simp
    have b: "\<forall>em \<in> set (snd (on_chunk st c) @ pre). \<not> is_terminal (snd em)"
      using ih(2) on_chunk_not_terminal [of _ st c] by auto
    have c: "(kind (snd t) = ''error'') = (\<exists>e. Raise e \<in> set (s # source))"
      using ih(4) Yield by simp
    from a b c ih(3) show ?thesis by blast
  next
    case (Raise e)
    have a: "astream_loop st (s # source) = [] @ [(None, mk_event ''error'' e)]"
      unfolding Raise by simp
    have c: "(kind (snd (None :: tool_call option, mk_event ''error'' e)) = ''error'') = (\<exists>e. Raise e \<in> set (s # source))"
      using Raise error_event_terminal(2) [of e] by auto
    have d: "is_terminal (snd (None :: tool_call option, mk_event ''error'' e))"
      using error_event_terminal(1) [of e] by simp
    have b: "\<forall>em \<in> set ([] :: emitted list). \<not> is_terminal (snd em)" by simp
    from a b c d show ?thesis by blast
  qed
qed

text \<open>
  Claim C6: for every finite source the mapped stream is not empty, its last
  event is a final or an error event, and it holds exactly one such event, so
  no final event follows an error event. The last event is an error event
  exactly when the source raises, and a final event exactly when it does not.
\<close>
theorem one_terminal_event_last:
  "generate_events source \<noteq> []
   \<and> is_terminal (last (generate_events source))
   \<and> length (filter is_terminal (generate_events source)) = 1
   \<and> (kind (last (generate_events source)) = ''error'') = (\<exists>e. Raise e \<in> set source)
   \<and> (kind (last (generate_events source)) = ''final'') = (\<forall>e. Raise e \<notin> set source)"
proof -
  obtain pre t where s: "astream_loop init_state source = pre @ [t]"
      "\<forall>em \<in> set pre. \<not> is_terminal (snd em)" "is_terminal (snd t)"
      "(kind (snd t) = ''error'') = (\<exists>e. Raise e \<in> set source)"
    using astream_loop_shape [of init_state source] by blast
  have e: "generate_events source = map snd pre @ [snd t]"
    by (simp add: generate_events_def generate_trace_def s(1))
  have f: "filter is_terminal (map snd pre) = []"
    using s(2) by (simp add: filter_empty_conv)
  have k: "(kind (snd t) = ''final'') = (kind (snd t) \<noteq> ''error'')"
    using s(3) by (auto simp: is_terminal_def)
  show ?thesis unfolding e using s(3) s(4) f k by simp
qed

lemma count_by_key:
  "distinct (map f xs) \<Longrightarrow> length (filter (\<lambda>x. f x = k) xs) = (if k \<in> f ` set xs then 1 else 0)"
  by (induction xs) auto

text \<open>
  Claim C7, amended: for a snapshot whose last message is an \<^verbatim>\<open>AIMessage\<close> with
  pending tool calls, every event is a thinking event caused by one of these
  calls, with the text \<^verbatim>\<open>Calling <tool name>...\<close>; a call whose key is not yet
  in \<^verbatim>\<open>seen_tool_calls\<close> causes exactly one event among the calls of its key,
  and a call whose key is there causes none.
\<close>
theorem thinking_events_of_snapshot:
  assumes "msgs \<noteq> []" and "last msgs = AIMessage body tcs" and "tcs \<noteq> []"
  shows "(\<forall>em \<in> set (snd (on_chunk st (Some msgs))).
            \<exists>tc \<in> set tcs. em = (Some tc, mk_event ''thinking'' (''Calling '' @ get_name tc @ ''...'')))
       \<and> (\<forall>tc \<in> set tcs.
            length (filter (\<lambda>c. tool_call_key c = tool_call_key tc)
                      (calls_of (snd (on_chunk st (Some msgs)))))
              = (if tool_call_key tc \<in> seen_tool_calls st then 0 else 1))"
proof -
  let ?out = "snd (each_tool_call st tcs)"
  have e: "on_chunk st (Some msgs) = each_tool_call st tcs"
    using assms by (simp add: on_chunk_def)
  note o = each_tool_call_out [of st tcs]
  have a: "\<forall>em \<in> set ?out. \<exists>tc \<in> set tcs. em = (Some tc, mk_event ''thinking'' (''Calling '' @ get_name tc @ ''...''))"
  proof
    fix em assume "em \<in> set ?out"
    with o have "em \<in> set (map (\<lambda>tc. (Some tc, thinking tc)) (calls_of ?out))" by simp
    then obtain tc where "tc \<in> set (calls_of ?out)" "em = (Some tc, thinking tc)" by auto
    with o show "\<exists>tc \<in> set tcs. em = (Some tc, mk_event ''thinking'' (''Calling '' @ get_name tc @ ''...''))"
      by (auto simp: thinking_def)
  qed
  have b: "\<forall>tc \<in> set tcs. length (filter (\<lambda>c. tool_call_key c = tool_call_key tc) (calls_of ?out))
              = (if tool_call_key tc \<in> seen_tool_calls st then 0 else 1)"
  proof
    fix tc assume tc: "tc \<in> set tcs"
    have d: "distinct (map tool_call_key (calls_of ?out))" using o by blast
    have k: "tool_call_key ` set (calls_of ?out) = tool_call_key ` set tcs - seen_tool_calls st"
      using o by blast
    have "(tool_call_key tc \<in> tool_call_key ` set (calls_of ?out)) = (tool_call_key tc \<notin> seen_tool_calls st)"
      unfolding k using tc by auto
    then show "length (filter (\<lambda>c. tool_call_key c = tool_call_key tc) (calls_of ?out))
              = (if tool_call_key tc \<in> seen_tool_calls st then 0 else 1)"
      using count_by_key [OF d, of "tool_call_key tc"] by auto
  qed
  show ?thesis unfolding e using a b by blast
qed

text \<open>
  Claim C7, as stated, fails: the thinking event does not carry the arguments
  of the tool call. Two snapshots whose pending call differs only in its
  arguments are mapped to the same events, with the text \<^verbatim>\<open>Calling search...\<close>.
\<close>
theorem thinking_event_drops_arguments:
  "generate_events [Yield (Some [AIMessage [] [\<lparr> tc_name = Some ''search'', tc_id = StrId ''call_1'',
                     tc_args = Some (PDict [(''query'', PStr ''cats'')]) \<rparr>]])]
     = [\<lparr> kind = ''thinking'', text_of = ''Calling search...'' \<rparr>,
        \<lparr> kind = ''final'', text_of = ''Task completed.'' \<rparr>]
   \<and> generate_events [Yield (Some [AIMessage [] [\<lparr> tc_name = Some ''search'', tc_id = StrId ''call_1'',
                     tc_args = Some (PDict [(''query'', PStr ''dogs'')]) \<rparr>]])]
     = [\<lparr> kind = ''thinking'', text_of = ''Calling search...'' \<rparr>,
        \<lparr> kind = ''final'', text_of = ''Task completed.'' \<rparr>]"
  by (simp add: generate_events_def generate_trace_def init_state_def on_chunk_def thinking_def
      mk_event_def get_name_def final_event_def tool_call_key_def get_id_def)

text \<open>
  Claim C7, amended, at a snapshot that ends with an \<^verbatim>\<open>AIMessage\<close> naming the
  same call twice, in the initial state.
\<close>
theorem thinking_events_of_snapshot_witness:
  "[OtherMessage ''HumanMessage'',
    AIMessage [] [\<lparr> tc_name = Some ''search'', tc_id = StrId ''call_1'', tc_args = None \<rparr>,
                  \<lparr> tc_name = Some ''search'', tc_id = StrId ''call_1'', tc_args = None \<rparr>]] \<noteq> []
   \<and> last [OtherMessage ''HumanMessage'',
            AIMessage [] [\<lparr> tc_name = Some ''search'', tc_id = StrId ''call_1'', tc_args = None \<rparr>,
                          \<lparr> tc_name = Some ''search'', tc_id = StrId ''call_1'', tc_args = None \<rparr>]]
       = AIMessage [] [\<lparr> tc_name = Some ''search'', tc_id = StrId ''call_1'', tc_args = None \<rparr>,
                       \<lparr> tc_name = Some ''search'', tc_id = StrId ''call_1'', tc_args = None \<rparr>]
   \<and> length (filter (\<lambda>c. tool_call_key c
                           = tool_call_key \<lparr> tc_name = Some ''search'', tc_id = StrId ''call_1'', tc_args = None \<rparr>)
        (calls_of (snd (on_chunk init_state (Some
           [OtherMessage ''HumanMessage'',
            AIMessage [] [\<lparr> tc_name = Some ''search'', tc_id = StrId ''call_1'', tc_args = None \<rparr>,
                          \<lparr> tc_name = Some ''search'', tc_id = StrId ''call_1'', tc_args = None \<rparr>]]))))) = 1"
proof -
  let ?c = "\<lparr> tc_name = Some ''search'', tc_id = StrId ''call_1'', tc_args = None \<rparr>"
  let ?msgs = "[OtherMessage ''HumanMessage'', AIMessage [] [?c, ?c]]"
  have n: "?msgs \<noteq> []" by simp
  have l: "last ?msgs = AIMessage [] [?c, ?c]" by simp
  have t: "[?c, ?c] \<noteq> []" by simp
  have s: "tool_call_key ?c \<notin> seen_tool_calls init_state" by (simp add: init_state_def)
  from thinking_events_of_snapshot [OF n l t, of init_state] s
  have "length (filter (\<lambda>c. tool_call_key c = tool_call_key ?c)
           (calls_of (snd (on_chunk init_state (Some ?msgs))))) = 1"
    by simp
  with n l show ?thesis by blast
qed


section \<open>Properties of the rebuild decision\<close>

text \<open>
  Claim C1, as stated, fails. A second request with the same fields as the
  first (\<^verbatim>\<open>model = "openai:gpt-4"\<close>) gets a new instance, number 1 after
  number 0; and a request that differs from the first one (\<^verbatim>\<open>model\<close> not
  given) gets the instance of the first, still built for \<^verbatim>\<open>openai:gpt-4\<close>.
\<close>
theorem reinit_ignores_previous_request:
  "fst (chat_agent always_builds empty_manager
          \<lparr> system_prompt = None, model = Some ''openai:gpt-4'', headless = True \<rparr>)
     = Inr \<lparr> inst_id = 0, inst_prompt = DefaultPrompt True, inst_model = ''openai:gpt-4'',
             inst_headless = True \<rparr>
   \<and> fst (chat_agent always_builds
          (snd (chat_agent always_builds empty_manager
                  \<lparr> system_prompt = None, model = Some ''openai:gpt-4'', headless = True \<rparr>))
          \<lparr> system_prompt = None, model = Some ''openai:gpt-4'', headless = True \<rparr>)
     = Inr \<lparr> inst_id = 1, inst_prompt = DefaultPrompt True, inst_model = ''openai:gpt-4'',
             inst_headless = True \<rparr>
   \<and> fst (chat_agent always_builds
          (snd (chat_agent always_builds empty_manager
                  \<lparr> system_prompt = None, model = Some ''openai:gpt-4'', headless = True \<rparr>))
          \<lparr> system_prompt = None, model = None, headless = True \<rparr>)
     = Inr \<lparr> inst_id = 0, inst_prompt = DefaultPrompt True, inst_model = ''openai:gpt-4'',
             inst_headless = True \<rparr>"
  by (simp add: chat_agent_def wants_reinit_def reinitialize_agent_def initialize_agent_def
      get_agent_def always_builds_def empty_manager_def Let_def)

lemma initialize_agent_result:
  "initialize_agent env m instructions mdl hdl =
     (if create_ok env (case instructions of None \<Rightarrow> DefaultPrompt hdl | Some s \<Rightarrow> CustomPrompt s)
           (if truthy mdl then the mdl else config_model env)
      then (Inr \<lparr> inst_id = created m,
                  inst_prompt = (case instructions of None \<Rightarrow> DefaultPrompt hdl | Some s \<Rightarrow> CustomPrompt s),
                  inst_model = (if truthy mdl then the mdl else config_model env),
                  inst_headless = hdl \<rparr>,
            m\<lparr> mcp_client := (if mcp_enabled env then Some () else mcp_client m),
               agent := Some \<lparr> inst_id = created m,
                  inst_prompt = (case instructions of None \<Rightarrow> DefaultPrompt hdl | Some s \<Rightarrow> CustomPrompt s),
                  inst_model = (if truthy mdl then the mdl else config_model env),
                  inst_headless = hdl \<rparr>,
               created := Suc (created m) \<rparr>)
      else (Inl BuildFailed, m\<lparr> mcp_client := (if mcp_enabled env then Some () else mcp_client m) \<rparr>))"
  by (cases mdl) (simp_all add: initialize_agent_def Let_def)

text \<open>
  Claim C1, amended: a request that gives a non-empty \<^verbatim>\<open>system_prompt\<close>, a
  non-empty \<^verbatim>\<open>model\<close> or \<^verbatim>\<open>headless = False\<close> discards the current instance; it
  gets a new instance, different from the old one and built from the fields of
  the request, or the build fails and the manager holds no instance. Any other
  request, in particular one that leaves the fields unspecified, gets the
  instance the manager holds and changes nothing. What the previous request
  asked for plays no part.
\<close>
theorem rebuild_decision:
  assumes "manager_ok m"
  shows "(wants_reinit request \<longrightarrow>
           (case fst (chat_agent env m request) of
              Inl e \<Rightarrow> agent (snd (chat_agent env m request)) = None
            | Inr a' \<Rightarrow>
                agent (snd (chat_agent env m request)) = Some a'
                \<and> inst_id a' = created m
                \<and> (\<forall>a. agent m = Some a \<longrightarrow> inst_id a \<noteq> inst_id a')
                \<and> inst_prompt a' = (case system_prompt request of
                                      None \<Rightarrow> DefaultPrompt (headless request)
                                    | Some s \<Rightarrow> CustomPrompt s)
                \<and> inst_model a' = (if truthy (model request) then the (model request)
                                    else config_model env)
                \<and> inst_headless a' = headless request))
       \<and> (\<not> wants_reinit request \<longrightarrow>
            (\<forall>a. agent m = Some a \<longrightarrow> chat_agent env m request = (Inr a, m)))
       \<and> (\<not> truthy (system_prompt request) \<and> \<not> truthy (model request) \<and> headless request
            \<longrightarrow> \<not> wants_reinit request)
       \<and> manager_ok (snd (chat_agent env m request))"
proof -
  have old: "\<forall>a. agent m = Some a \<longrightarrow> inst_id a \<noteq> created m"
    using assms by (auto simp: manager_ok_def)
  have a: "wants_reinit request \<longrightarrow>
           (case fst (chat_agent env m request) of
              Inl e \<Rightarrow> agent (snd (chat_agent env m request)) = None
            | Inr a' \<Rightarrow>
                agent (snd (chat_agent env m request)) = Some a'
                \<and> inst_id a' = created m
                \<and> (\<forall>a. agent m = Some a \<longrightarrow> inst_id a \<noteq> inst_id a')
                \<and> inst_prompt a' = (case system_prompt request of
                                      None \<Rightarrow> DefaultPrompt (headless request)
                                    | Some s \<Rightarrow> CustomPrompt s)
                \<and> inst_model a' = (if truthy (model request) then the (model request)
                                    else config_model env)
                \<and> inst_headless a' = headless request)"
    using old
    by (simp add: chat_agent_def reinitialize_agent_def initialize_agent_result get_agent_def)
  have b: "\<not> wants_reinit request \<longrightarrow>
            (\<forall>a. agent m = Some a \<longrightarrow> chat_agent env m request = (Inr a, m))"
    by (simp add: chat_agent_def get_agent_def)
  have c: "\<not> truthy (system_prompt request) \<and> \<not> truthy (model request) \<and> headless request
            \<longrightarrow> \<not> wants_reinit request"
    by (simp add: wants_reinit_def)
  have d: "manager_ok (snd (chat_agent env m request))"
    using assms
    by (simp add: chat_agent_def reinitialize_agent_def initialize_agent_result get_agent_def
        manager_ok_def split: option.splits)
  from a b c d show ?thesis by blast
qed

text \<open>
  Claim C1, amended, at a manager that holds instance 0: a request naming a
  model gets instance 1, a request naming nothing gets instance 0.
\<close>
theorem rebuild_decision_witness:
  "manager_ok \<lparr> agent = Some \<lparr> inst_id = 0, inst_prompt = DefaultPrompt True,
                                 inst_model = ''openai:gpt-4'', inst_headless = True \<rparr>,
                mcp_client = None, created = 1 \<rparr>
   \<and> wants_reinit \<lparr> system_prompt = None, model = Some ''openai:gpt-4'', headless = True \<rparr>
   \<and> fst (chat_agent always_builds
            \<lparr> agent = Some \<lparr> inst_id = 0, inst_prompt = DefaultPrompt True,
                             inst_model = ''openai:gpt-4'', inst_headless = True \<rparr>,
              mcp_client = None, created = 1 \<rparr>
            \<lparr> system_prompt = None, model = Some ''openai:gpt-4'', headless = True \<rparr>)
       = Inr \<lparr> inst_id = 1, inst_prompt = DefaultPrompt True, inst_model = ''openai:gpt-4'',
               inst_headless = True \<rparr>
   \<and> \<not> wants_reinit \<lparr> system_prompt = None, model = None, headless = True \<rparr>
   \<and> chat_agent always_builds
            \<lparr> agent = Some \<lparr> inst_id = 0, inst_prompt = DefaultPrompt True,
                             inst_model = ''openai:gpt-4'', inst_headless = True \<rparr>,
              mcp_client = None, created = 1 \<rparr>
            \<lparr> system_prompt = None, model = None, headless = True \<rparr>
       = (Inr \<lparr> inst_id = 0, inst_prompt = DefaultPrompt True, inst_model = ''openai:gpt-4'',
                inst_headless = True \<rparr>,
          \<lparr> agent = Some \<lparr> inst_id = 0, inst_prompt = DefaultPrompt True,
                             inst_model = ''openai:gpt-4'', inst_headless = True \<rparr>,
              mcp_client = None, created = 1 \<rparr>)"
proof -
  let ?a = "\<lparr> inst_id = 0, inst_prompt = DefaultPrompt True,
              inst_model = ''openai:gpt-4'', inst_headless = True \<rparr>"
  let ?m = "\<lparr> agent = Some ?a, mcp_client = None, created = 1 \<rparr>"
  let ?r1 = "\<lparr> system_prompt = None, model = Some ''openai:gpt-4'', headless = True \<rparr>"
  let ?r2 = "\<lparr> system_prompt = None, model = None, headless = True \<rparr>"
  have ok: "manager_ok ?m" by (simp add: manager_ok_def)
  have w1: "wants_reinit ?r1" by (simp add: wants_reinit_def)
  have w2: "\<not> wants_reinit ?r2" by (simp add: wants_reinit_def)
  have built: "fst (chat_agent always_builds ?m ?r1)
       = Inr \<lparr> inst_id = 1, inst_prompt = DefaultPrompt True, inst_model = ''openai:gpt-4'',
               inst_headless = True \<rparr>"
    by (simp add: chat_agent_def w1 reinitialize_agent_def initialize_agent_result get_agent_def
        always_builds_def)
  have kept: "chat_agent always_builds ?m ?r2 = (Inr ?a, ?m)"
    using rebuild_decision [OF ok, of ?r2 always_builds] w2 by simp
  from ok w1 w2 built kept show ?thesis by blast
qed


section \<open>Properties of the wrapped browser tools\<close>

text \<open>
  Claim C8: for a custom tool with one of the three browser tool names, the
  wrapped tool keeps the name and the argument schema, its description is the
  original one followed by the note on the browser mode, and every call
  of it calls the original with \<^verbatim>\<open>headless\<close> set to the value of the runtime
  flag, whatever the caller gave for \<^verbatim>\<open>headless\<close>.
\<close>
theorem browser_tool_forced_headless:
  assumes "i < length custom_tools"
    and "name (custom_tools ! i) \<in> set browser_tool_names"
  shows "name (wrapped_custom_tools headless_val custom_tools ! i) = name (custom_tools ! i)
       \<and> description (wrapped_custom_tools headless_val custom_tools ! i)
           = description (custom_tools ! i) @ '' (Browser mode: ''
               @ (if headless_val then ''headless/invisible'' else ''visible/slow'') @ '')''
       \<and> args_schema (wrapped_custom_tools headless_val custom_tools ! i) = args_schema (custom_tools ! i)
       \<and> (\<forall>args kwargs.
             coroutine (wrapped_custom_tools headless_val custom_tools ! i) args kwargs
               = coroutine (custom_tools ! i) args (kwargs(''headless'' \<mapsto> PBool headless_val)))
       \<and> (\<forall>args kwargs v.
             coroutine (wrapped_custom_tools headless_val custom_tools ! i) args (kwargs(''headless'' \<mapsto> v))
               = coroutine (wrapped_custom_tools headless_val custom_tools ! i) args kwargs)"
  using assms
  by (simp add: wrapped_custom_tools_def wrap_custom_tool_def 
      create_wrapped_browser_tool_def browser_mode_note_def)

text \<open>
  Claim C8 at a tool \<^verbatim>\<open>browser_research\<close> that returns the \<^verbatim>\<open>headless\<close> argument it
  receives: called with \<^verbatim>\<open>headless=False\<close> under the flag \<^verbatim>\<open>True\<close>, it receives
  \<^verbatim>\<open>True\<close>.
\<close>
theorem browser_tool_forced_headless_witness:
  "(0::nat) < length [\<lparr> name = ''browser_research'', description = ''Scrape a page'',
                        coroutine = (\<lambda>args kwargs. kwargs ''headless''), args_schema = () \<rparr>]
   \<and> name ([\<lparr> name = ''browser_research'', description = ''Scrape a page'',
              coroutine = (\<lambda>args kwargs. kwargs ''headless''), args_schema = () \<rparr>] ! 0)
        \<in> set browser_tool_names
   \<and> description (wrapped_custom_tools True
         [\<lparr> name = ''browser_research'', description = ''Scrape a page'',
            coroutine = (\<lambda>args kwargs. kwargs ''headless''), args_schema = () \<rparr>] ! 0)
       = ''Scrape a page (Browser mode: headless/invisible)''
   \<and> coroutine (wrapped_custom_tools True
         [\<lparr> name = ''browser_research'', description = ''Scrape a page'',
            coroutine = (\<lambda>args kwargs. kwargs ''headless''), args_schema = () \<rparr>] ! 0)
         [] [''headless'' \<mapsto> PBool False]
       = Some (PBool True)"
proof -
  let ?t = "\<lparr> name = ''browser_research'', description = ''Scrape a page'',
              coroutine = (\<lambda>args kwargs. kwargs ''headless''), args_schema = () \<rparr>"
  have i: "(0::nat) < length [?t]" by simp
  have n: "name ([?t] ! 0) \<in> set browser_tool_names" by (simp add: browser_tool_names_def)
  from browser_tool_forced_headless [OF i n, of True] i n show ?thesis by simp
qed


section \<open>Properties of the history limit\<close>

lemma slice_from_last_10:
  "10 < length xs \<Longrightarrow> slice_from xs (- 10) = drop (length xs - 10) xs"
proof -
  assume a: "10 < length xs"
  then have "nat (max 0 (int (length xs) + - 10)) = length xs - 10" by simp
  then show ?thesis by (simp add: slice_from_def)
qed

lemma add_instruction_keeps:
  "length (add_instruction ins xs) = length xs"
  "butlast (add_instruction ins xs) = butlast xs"
  "map role (add_instruction ins xs) = map role xs"
proof -
  show "length (add_instruction ins xs) = length xs"
    by (simp add: add_instruction_def)
  show "butlast (add_instruction ins xs) = butlast xs"
    by (simp add: add_instruction_def)
  show "map role (add_instruction ins xs) = map role xs"
  proof (cases "xs = []")
    case True
    then show ?thesis by (simp add: add_instruction_def)
  next
    case False
    then have "xs = butlast xs @ [last xs]" by simp
    then have "map role xs = map role (butlast xs) @ [role (last xs)]"
      by (metis list.simps(8,9) map_append)
    then show ?thesis by (simp add: add_instruction_def)
  qed
qed

lemma add_instruction_user:
  "xs \<noteq> [] \<Longrightarrow> role (last xs) = ''user'' \<Longrightarrow>
     add_instruction ins xs = butlast xs @ [(last xs)\<lparr>content := content (last xs) @ ins\<rparr>]"
  by (simp add: add_instruction_def)

lemma add_instruction_other:
  "xs = [] \<or> role (last xs) \<noteq> ''user'' \<Longrightarrow> add_instruction ins xs = xs"
  by (auto simp: add_instruction_def)

lemma structured_instruction_nonempty: "structured_instruction schema_str \<noteq> []"
  by (simp add: structured_instruction_def)

text \<open>
  Claim C10, as stated, fails for \<^verbatim>\<open>structured_chat\<close>: a request with a single
  user message \<^verbatim>\<open>hi\<close> and the schema text \<^verbatim>\<open>{}\<close> has at most 10 messages, and
  the message passed to the agent is not the message of the request: its text
  is \<^verbatim>\<open>hi\<close> followed by the instruction.
\<close>
theorem structured_chat_changes_last_message:
  "length [\<lparr> role = ''user'', content = ''hi'' \<rparr>] \<le> 10
   \<and> structured_chat_messages ''{}'' [\<lparr> role = ''user'', content = ''hi'' \<rparr>]
       = [\<lparr> role = ''user'',
            content = ''hi'' @ [CHR 0x0A, CHR 0x0A]
              @ ''IMPORTANT: You MUST respond with valid JSON matching this exact schema:''
              @ [CHR 0x0A] @ ''{}'' @ [CHR 0x0A, CHR 0x0A]
              @ ''Do not include any text outside the JSON object.'' \<rparr>]
   \<and> structured_chat_messages ''{}'' [\<lparr> role = ''user'', content = ''hi'' \<rparr>]
       \<noteq> [\<lparr> role = ''user'', content = ''hi'' \<rparr>]"
  by (simp add: structured_chat_messages_def limit_history_def add_instruction_def
      structured_instruction_def)

text \<open>
  Claim C10, amended: a message list of more than 10 entries is cut to its last
  10 entries, the earlier ones are dropped; a list of at most 10 entries is
  kept as it is. \<^verbatim>\<open>chat\<close> passes this list to the agent. \<^verbatim>\<open>structured_chat\<close>
  limits the history in the same way and passes the limited list with one
  change: when its last message is a user message, the instruction with the
  schema is appended to the text of that message. The number of messages,
  their roles and all messages but the last are those of the limited list;
  when the limited list is empty or its last message is not a user message,
  it is passed as it is.
\<close>
theorem messages_passed_to_agent:
  "(10 < length messages \<longrightarrow>
      chat_messages messages = drop (length messages - 10) messages
      \<and> length (chat_messages messages) = 10
      \<and> suffix (chat_messages messages) messages)
   \<and> (length messages \<le> 10 \<longrightarrow> chat_messages messages = messages)
   \<and> structured_chat_messages schema_str messages
       = add_instruction (structured_instruction schema_str) (chat_messages messages)
   \<and> length (structured_chat_messages schema_str messages) = length (chat_messages messages)
   \<and> butlast (structured_chat_messages schema_str messages) = butlast (chat_messages messages)
   \<and> map role (structured_chat_messages schema_str messages) = map role (chat_messages messages)
   \<and> (chat_messages messages \<noteq> [] \<and> role (last (chat_messages messages)) = ''user'' \<longrightarrow>
        structured_chat_messages schema_str messages
          = butlast (chat_messages messages)
            @ [(last (chat_messages messages))
                 \<lparr>content := content (last (chat_messages messages))
                               @ structured_instruction schema_str\<rparr>]
        \<and> structured_chat_messages schema_str messages \<noteq> chat_messages messages)
   \<and> (chat_messages messages = [] \<or> role (last (chat_messages messages)) \<noteq> ''user'' \<longrightarrow>
        structured_chat_messages schema_str messages = chat_messages messages)"
proof -
  let ?ins = "structured_instruction schema_str"
  let ?xs = "chat_messages messages"
  have a: "10 < length messages \<longrightarrow>
      chat_messages messages = drop (length messages - 10) messages
      \<and> length (chat_messages messages) = 10
      \<and> suffix (chat_messages messages) messages"
    by (auto simp: chat_messages_def limit_history_def slice_from_last_10 suffix_drop)
  have b: "length messages \<le> 10 \<longrightarrow> chat_messages messages = messages"
    by (simp add: chat_messages_def limit_history_def)
  have c: "structured_chat_messages schema_str messages = add_instruction ?ins ?xs"
    by (simp add: structured_chat_messages_def chat_messages_def)
  have d: "length (structured_chat_messages schema_str messages) = length ?xs"
    unfolding c by (rule add_instruction_keeps(1))
  have e: "butlast (structured_chat_messages schema_str messages) = butlast ?xs"
    unfolding c by (rule add_instruction_keeps(2))
  have f: "map role (structured_chat_messages schema_str messages) = map role ?xs"
    unfolding c by (rule add_instruction_keeps(3))
  have g: "?xs \<noteq> [] \<and> role (last ?xs) = ''user'' \<longrightarrow>
        structured_chat_messages schema_str messages
          = butlast ?xs @ [(last ?xs)\<lparr>content := content (last ?xs) @ ?ins\<rparr>]
        \<and> structured_chat_messages schema_str messages \<noteq> ?xs"
  proof
    assume u: "?xs \<noteq> [] \<and> role (last ?xs) = ''user''"
    then have eq: "structured_chat_messages schema_str messages
          = butlast ?xs @ [(last ?xs)\<lparr>content := content (last ?xs) @ ?ins\<rparr>]"
      unfolding c by (simp add: add_instruction_user)
    have "last (structured_chat_messages schema_str messages)
          = (last ?xs)\<lparr>content := content (last ?xs) @ ?ins\<rparr>"
      unfolding eq by simp
    then have "content (last (structured_chat_messages schema_str messages))
          = content (last ?xs) @ ?ins" by simp
    moreover have "content (last ?xs) @ ?ins \<noteq> content (last ?xs)"
      using structured_instruction_nonempty [of schema_str] by simp
    ultimately have "structured_chat_messages schema_str messages \<noteq> ?xs" by metis
    with eq show "structured_chat_messages schema_str messages
          = butlast ?xs @ [(last ?xs)\<lparr>content := content (last ?xs) @ ?ins\<rparr>]
        \<and> structured_chat_messages schema_str messages \<noteq> ?xs" by blast
  qed
  have h: "?xs = [] \<or> role (last ?xs) \<noteq> ''user'' \<longrightarrow>
        structured_chat_messages schema_str messages = ?xs"
    unfolding c using add_instruction_other [of ?xs ?ins] by blast
  from a b c d e f g h show ?thesis by blast
qed

text \<open>
  Claim C10, amended, at a list of twelve user messages, at a list of three
  user messages, and at a list that ends with an assistant message.
\<close>
theorem messages_passed_to_agent_witness:
  "10 < length (map numbered [0, 1, 2, 3, 4, 5, 6, 7, 8, 9, 10, 11])
   \<and> chat_messages (map numbered [0, 1, 2, 3, 4, 5, 6, 7, 8, 9, 10, 11])
       = map numbered [2, 3, 4, 5, 6, 7, 8, 9, 10, 11]
   \<and> length (map numbered [0, 1, 2]) \<le> 10
   \<and> chat_messages (map numbered [0, 1, 2]) = map numbered [0, 1, 2]
   \<and> role (last (chat_messages (map numbered [0, 1, 2]))) = ''user''
   \<and> structured_chat_messages ''{}'' (map numbered [0, 1, 2])
       = [numbered 0, numbered 1,
          (numbered 2)\<lparr>content := content (numbered 2) @ structured_instruction ''{}''\<rparr>]
   \<and> role (last (chat_messages [numbered 0, \<lparr> role = ''assistant'', content = ''ok'' \<rparr>]))
       \<noteq> ''user''
   \<and> structured_chat_messages ''{}'' [numbered 0, \<lparr> role = ''assistant'', content = ''ok'' \<rparr>]
       = [numbered 0, \<lparr> role = ''assistant'', content = ''ok'' \<rparr>]"
proof -
  let ?twelve = "map numbered [0, 1, 2, 3, 4, 5, 6, 7, 8, 9, 10, 11]"
  let ?three = "map numbered [0, 1, 2]"
  let ?two = "[numbered 0, \<lparr> role = ''assistant'', content = ''ok'' \<rparr>]"
  have l: "10 < length ?twelve" by simp
  have s: "length ?three \<le> 10" by simp
  have s2: "length ?two \<le> 10" by simp
  from messages_passed_to_agent [of ?twelve] l
  have a: "chat_messages ?twelve = map numbered [2, 3, 4, 5, 6, 7, 8, 9, 10, 11]" by simp
  from messages_passed_to_agent [of ?three] s
  have b: "chat_messages ?three = ?three" by blast
  from messages_passed_to_agent [of ?two] s2
  have b2: "chat_messages ?two = ?two" by blast
  have u: "role (last (chat_messages ?three)) = ''user''"
    unfolding b by (simp add: numbered_def)
  have n: "chat_messages ?three \<noteq> []" unfolding b by simp
  have "structured_chat_messages ''{}'' ?three
          = butlast (chat_messages ?three)
            @ [(last (chat_messages ?three))
                 \<lparr>content := content (last (chat_messages ?three)) @ structured_instruction ''{}''\<rparr>]"
    using messages_passed_to_agent [of ?three "''{}''"] n u by blast
  then have c: "structured_chat_messages ''{}'' ?three
       = [numbered 0, numbered 1,
          (numbered 2)\<lparr>content := content (numbered 2) @ structured_instruction ''{}''\<rparr>]"
    unfolding b by simp
  have v: "role (last (chat_messages ?two)) \<noteq> ''user''"
    unfolding b2 by simp
  then have "structured_chat_messages ''{}'' ?two = chat_messages ?two"
    using messages_passed_to_agent [of ?two "''{}''"] by blast
  then have d: "structured_chat_messages ''{}'' ?two = ?two"
    unfolding b2 .
  from l s a b u c v d show ?thesis by blast
qed

end
